theory Spec2Isabelle
  imports Complex_Main "HOL-Library.Char_ord" "HOL-Library.List_Lexorder"
begin

section \<open>Values of the JavaScript runtime\<close>

text \<open>
  The handlers read request bodies with \<^verbatim>\<open>request.json()\<close> and hand the parsed values on,
  untyped, to the persistence layer. A parsed body is a JSON value. A string is a list of code
  units (the model keeps the code units below 256), an object is the list of its own
  properties in insertion order. Numbers are kept to the integers.
\<close>

datatype json =
    JNull
  | JBool bool
  | JNum int
  | JStr string
  | JArr "json list"
  | JObj "(string \<times> json) list"

datatype exn = TypeError | SyntaxError | StorageError

text \<open>ToBoolean: \<^verbatim>\<open>!v\<close> is \<open>\<not> truthy v\<close>. An absent property reads as \<^verbatim>\<open>undefined\<close>,
  which is \<open>None\<close> here and falsy.\<close>

fun truthy :: "json \<Rightarrow> bool" where
  "truthy JNull = False"
| "truthy (JBool b) = b"
| "truthy (JNum n) = (n \<noteq> 0)"
| "truthy (JStr s) = (s \<noteq> [])"
| "truthy (JArr xs) = True"
| "truthy (JObj kvs) = True"

fun truthy_opt :: "json option \<Rightarrow> bool" where
  "truthy_opt None = False"
| "truthy_opt (Some v) = truthy v"

text \<open>The white space and line terminator code units that \<^verbatim>\<open>String.prototype.trim\<close> and
  \<^verbatim>\<open>parseInt\<close> strip: TAB, LF, VT, FF, CR, SP and NBSP.\<close>

definition is_ws :: "char \<Rightarrow> bool" where
  "is_ws c = ((of_char c :: nat) \<in> {9, 10, 11, 12, 13, 32, 160})"

definition trim :: "string \<Rightarrow> string" where
  "trim s = rev (dropWhile is_ws (rev (dropWhile is_ws s)))"

text \<open>\<^verbatim>\<open>v.trim()\<close> on a value that is not nullish: a string has the method, every other value
  has no callable \<^verbatim>\<open>trim\<close> property and the call throws a TypeError.\<close>

fun call_trim :: "json \<Rightarrow> exn + string" where
  "call_trim (JStr s) = Inr (trim s)"
| "call_trim v = Inl TypeError"

text \<open>\<^verbatim>\<open>key in updates\<close> followed by \<^verbatim>\<open>updates[key]\<close>: the \<^verbatim>\<open>in\<close> operator throws on a
  primitive, and an array has none of the keys the handler asks for. \<open>Inr None\<close> says that the
  key is not in the object.\<close>

fun prop_in :: "string \<Rightarrow> json \<Rightarrow> exn + json option" where
  "prop_in k (JObj kvs) = Inr (map_of kvs k)"
| "prop_in k (JArr xs) = Inr None"
| "prop_in k v = Inl TypeError"

text \<open>Reading a property in a destructuring pattern: \<^verbatim>\<open>undefined\<close> (\<open>None\<close>) on every value
  that has no such property. (Destructuring \<^verbatim>\<open>null\<close> itself throws; the handler model checks
  that first.)\<close>

fun get_prop :: "json \<Rightarrow> string \<Rightarrow> json option" where
  "get_prop (JObj kvs) k = map_of kvs k"
| "get_prop v k = None"

text \<open>Property assignment \<^verbatim>\<open>obj[key] = v\<close> on an object kept in insertion order.\<close>

fun obj_set :: "string \<Rightarrow> json \<Rightarrow> (string \<times> json) list \<Rightarrow> (string \<times> json) list" where
  "obj_set k v [] = [(k, v)]"
| "obj_set k v (p # ps) = (if fst p = k then (k, v) # ps else p # obj_set k v ps)"

subsection \<open>parseInt\<close>

text \<open>\<^verbatim>\<open>parseInt(id)\<close> with no radix: leading white space is dropped, then an optional sign,
  then an optional \<^verbatim>\<open>0x\<close>/\<^verbatim>\<open>0X\<close> prefix that selects radix 16; the longest prefix of digits of
  the radix is the number, and an empty one gives NaN, which is \<open>None\<close>. The number is kept
  as the integer the digits denote (beyond \<open>2^53\<close> the runtime rounds it).\<close>

definition digit_val :: "char \<Rightarrow> nat option" where
  "digit_val c =
     (let n = (of_char c :: nat) in
      if 48 \<le> n \<and> n \<le> 57 then Some (n - 48)
      else if 97 \<le> n \<and> n \<le> 122 then Some (n - 87)
      else if 65 \<le> n \<and> n \<le> 90 then Some (n - 55)
      else None)"

definition is_digit :: "nat \<Rightarrow> char \<Rightarrow> bool" where
  "is_digit radix c = (case digit_val c of None \<Rightarrow> False | Some d \<Rightarrow> d < radix)"

definition digits_value :: "nat \<Rightarrow> string \<Rightarrow> int" where
  "digits_value radix z = foldl (\<lambda>acc c. acc * int radix + int (case digit_val c of None \<Rightarrow> 0 | Some d \<Rightarrow> d)) 0 z"

definition strip_sign :: "string \<Rightarrow> int \<times> string" where
  "strip_sign s =
     (case s of
        [] \<Rightarrow> (1, [])
      | c # cs \<Rightarrow> if c = CHR ''-'' then (-1, cs) else if c = CHR ''+'' then (1, cs) else (1, s))"

definition strip_prefix :: "string \<Rightarrow> nat \<times> string" where
  "strip_prefix s =
     (case s of
        a # b # cs \<Rightarrow> if a = CHR ''0'' \<and> (b = CHR ''x'' \<or> b = CHR ''X'') then (16, cs) else (10, s)
      | _ \<Rightarrow> (10, s))"

definition parseInt :: "string \<Rightarrow> int option" where
  "parseInt str =
     (let (sign, s1) = strip_sign (dropWhile is_ws str);
          (radix, s2) = strip_prefix s1;
          z = takeWhile (is_digit radix) s2
      in if z = [] then None else Some (sign * digits_value radix z))"


subsection \<open>Number arithmetic\<close>

text \<open>A JavaScript number is an IEEE 754 binary64 value, and \<^verbatim>\<open>/\<close> and \<^verbatim>\<open>*\<close> round their exact
  result to the nearest such value, ties to the even significand. \<open>fl\<close> is that rounding on
  the rationals: \<open>binade\<close> finds the exponent \<open>e\<close> with \<open>2^e \<le> x < 2^(e+1)\<close> (its first argument
  bounds the search and is larger than the exponent range), the spacing of the values there is
  \<open>2^(e-52)\<close>, and below the normal range the spacing stays that of exponent \<open>-1022\<close>.
  Overflow to Infinity is left out: the values rounded here lie between 0 and 100.\<close>

fun binade :: "nat \<Rightarrow> rat \<Rightarrow> int" where
  "binade 0 x = 0"
| "binade (Suc n) x =
     (if x < 1 then binade n (2 * x) - 1 else if 2 \<le> x then binade n (x / 2) + 1 else 0)"

definition pow2 :: "int \<Rightarrow> rat" where
  "pow2 e = (if 0 \<le> e then 2 ^ nat e else 1 / 2 ^ nat (- e))"

definition round_ties_even :: "rat \<Rightarrow> int" where
  "round_ties_even x =
     (let f = \<lfloor>x\<rfloor>; d = x - of_int f
      in if d < 1 / 2 then f else if 1 / 2 < d then f + 1 else if even f then f else f + 1)"

definition fl :: "rat \<Rightarrow> rat" where
  "fl x =
     (if x = 0 then 0
      else let a = \<bar>x\<bar>; e = max (binade 2200 a) (- 1022); q = pow2 (e - 52)
           in sgn x * of_int (round_ties_even (a / q)) * q)"

definition js_div :: "rat \<Rightarrow> rat \<Rightarrow> rat" where
  "js_div a b = fl (a / b)"

definition js_mul :: "rat \<Rightarrow> rat \<Rightarrow> rat" where
  "js_mul a b = fl (a * b)"

text \<open>\<^verbatim>\<open>Math.round\<close>: the nearest integer, a tie going towards \<open>+\<infinity>\<close>.\<close>

definition Math_round :: "rat \<Rightarrow> int" where
  "Math_round x = \<lfloor>x + 1 / 2\<rfloor>"

section \<open>The persistence layer (src/lib/db.ts)\<close>

text \<open>
  A user row has the four typed columns of \<^verbatim>\<open>User\<close>. A todo row is the object that
  \<^verbatim>\<open>SELECT *\<close> returns: a map from column name to value. \<^verbatim>\<open>updateTodo\<close> builds its SET list at
  run time from the property names of its argument, and the handler passes it values of type
  \<^verbatim>\<open>any\<close>, so a column holds whatever value was bound.
\<close>

record user =
  u_id :: int
  u_username :: string
  u_password_hash :: string
  u_created_at :: string

type_synonym todo = "string \<rightharpoonup> json"

definition todo_columns :: "string list" where
  "todo_columns = [''id'', ''user_id'', ''title'', ''description'', ''priority'', ''category'',
     ''completed'', ''completed_at'', ''due_date'', ''created_at'', ''updated_at'']"

text \<open>
  The process and its storage. \<open>isProduction\<close> selects the networked backend (the pool
  exists exactly then, the embedded database exactly otherwise). \<open>now\<close> is the clock, read by
  \<^verbatim>\<open>new Date().toISOString()\<close> and by \<^verbatim>\<open>CURRENT_TIMESTAMP\<close>. \<open>faults\<close> is the environment's
  schedule for the statements still to come: each statement sent to the engine takes the head,
  and \<open>True\<close> makes the engine raise on it (lost connection, constraint of the schema, a value
  the driver cannot bind); with the schedule used up the engine accepts. An accepted statement
  has the effect of its SQL text, a rejected one has none.
\<close>

record world =
  isProduction :: bool
  initialized :: bool
  users :: "user list"
  todos :: "todo list"
  next_user_id :: int
  next_todo_id :: int
  now :: string
  faults :: "bool list"

type_synonym 'a io = "world \<Rightarrow> (exn + 'a) \<times> world"

definition attempt :: "world \<Rightarrow> bool \<times> world" where
  "attempt w = (case faults w of [] \<Rightarrow> (False, w) | b # bs \<Rightarrow> (b, w\<lparr>faults := bs\<rparr>))"

text \<open>\<^verbatim>\<open>initDb\<close>: three \<^verbatim>\<open>CREATE ... IF NOT EXISTS\<close> statements, one after the other.\<close>

fun run_schema :: "nat \<Rightarrow> unit io" where
  "run_schema 0 w = (Inr (), w)"
| "run_schema (Suc n) w =
     (case attempt w of
        (True, w') \<Rightarrow> (Inl StorageError, w')
      | (False, w') \<Rightarrow> run_schema n w')"

definition initDb :: "unit io" where
  "initDb w = run_schema 3 w"

text \<open>src/lib/init.ts\<close>

definition ensureDbInitialized :: "unit io" where
  "ensureDbInitialized w =
     (if \<not> initialized w then
        (case initDb w of
           (Inl e, w') \<Rightarrow> (Inl e, w')
         | (Inr u, w') \<Rightarrow> (Inr (), w'\<lparr>initialized := True\<rparr>))
      else (Inr (), w))"

subsection \<open>User operations\<close>

definition getUserByUsername :: "string \<Rightarrow> user option io" where
  "getUserByUsername name w =
     (case attempt w of
        (True, w') \<Rightarrow> (Inl StorageError, w')
      | (False, w') \<Rightarrow> (Inr (find (\<lambda>u. u_username u = name) (users w')), w'))"

definition getUserById :: "int \<Rightarrow> user option io" where
  "getUserById i w =
     (case attempt w of
        (True, w') \<Rightarrow> (Inl StorageError, w')
      | (False, w') \<Rightarrow> (Inr (find (\<lambda>u. u_id u = i) (users w')), w'))"

definition insert_user :: "string \<Rightarrow> string \<Rightarrow> world \<Rightarrow> user \<times> world" where
  "insert_user name hash w =
     (let u = \<lparr>u_id = next_user_id w, u_username = name, u_password_hash = hash,
                u_created_at = now w\<rparr>
      in (u, w\<lparr>users := users w @ [u], next_user_id := next_user_id w + 1\<rparr>))"

text \<open>In the embedded branch the row is read back with \<^verbatim>\<open>return getUserById(...)\<close>: the
  promise is returned without \<^verbatim>\<open>await\<close>, so its rejection is not seen by the \<^verbatim>\<open>catch\<close>.\<close>

definition createUser :: "string \<Rightarrow> string \<Rightarrow> user option io" where
  "createUser name hash w =
     (case attempt w of
        (True, w') \<Rightarrow> (Inr None, w')
      | (False, w') \<Rightarrow>
          (let (u, w'') = insert_user name hash w'
           in if isProduction w then (Inr (Some u), w'') else getUserById (u_id u) w''))"

subsection \<open>Todo operations\<close>

definition new_todo :: "world \<Rightarrow> int \<Rightarrow> string \<Rightarrow> string option \<Rightarrow> string \<Rightarrow> string option \<Rightarrow> json \<Rightarrow> todo" where
  "new_todo w userId title description priority category dueDate =
     [''id'' \<mapsto> JNum (next_todo_id w),
      ''user_id'' \<mapsto> JNum userId,
      ''title'' \<mapsto> JStr title,
      ''description'' \<mapsto> (case description of None \<Rightarrow> JNull | Some d \<Rightarrow> JStr d),
      ''priority'' \<mapsto> JStr priority,
      ''category'' \<mapsto> (case category of None \<Rightarrow> JNull | Some c \<Rightarrow> JStr c),
      ''completed'' \<mapsto> (if isProduction w then JBool False else JNum 0),
      ''completed_at'' \<mapsto> JNull,
      ''due_date'' \<mapsto> dueDate,
      ''created_at'' \<mapsto> JStr (now w),
      ''updated_at'' \<mapsto> JStr (now w)]"

definition has_id :: "int \<Rightarrow> todo \<Rightarrow> bool" where
  "has_id i r = (r ''id'' = Some (JNum i))"

definition getTodoById :: "int \<Rightarrow> todo option io" where
  "getTodoById i w =
     (case attempt w of
        (True, w') \<Rightarrow> (Inl StorageError, w')
      | (False, w') \<Rightarrow> (Inr (find (has_id i) (todos w')), w'))"

definition createTodo :: "int \<Rightarrow> string \<Rightarrow> string option \<Rightarrow> string \<Rightarrow> string option \<Rightarrow> json \<Rightarrow> todo option io" where
  "createTodo userId title description priority category dueDate w =
     (case attempt w of
        (True, w') \<Rightarrow> (Inr None, w')
      | (False, w') \<Rightarrow>
          (let r = new_todo w' userId title description priority category dueDate;
               w'' = w'\<lparr>todos := todos w' @ [r], next_todo_id := next_todo_id w' + 1\<rparr>
           in if isProduction w then (Inr (Some r), w'') else getTodoById (next_todo_id w') w''))"

text \<open>\<^verbatim>\<open>ORDER BY created_at DESC\<close>; rows with equal time stamps come latest insertion first.\<close>

definition created_key :: "todo \<Rightarrow> string" where
  "created_key r = (case r ''created_at'' of Some (JStr s) \<Rightarrow> s | _ \<Rightarrow> [])"

definition getTodosByUserId :: "int \<Rightarrow> todo list io" where
  "getTodosByUserId userId w =
     (case attempt w of
        (True, w') \<Rightarrow> (Inl StorageError, w')
      | (False, w') \<Rightarrow>
          (Inr (rev (sort_key created_key
                  (filter (\<lambda>r. r ''user_id'' = Some (JNum userId)) (todos w')))), w'))"

text \<open>The UPDATE statement: every assignment of the SET list in turn, on the rows whose id
  matches. A SET list that names a column the table does not have is an error of the
  statement. \<open>None\<close> says that the statement raised; otherwise the result holds the rows as
  updated, which is what \<^verbatim>\<open>RETURNING *\<close> gives.\<close>

definition apply_set :: "(string \<times> json) list \<Rightarrow> todo \<Rightarrow> todo" where
  "apply_set assignments r = foldl (\<lambda>r' (k, v). r'(k \<mapsto> v)) r assignments"

definition run_update :: "(string \<times> json) list \<Rightarrow> int \<Rightarrow> world \<Rightarrow> todo list option \<times> world" where
  "run_update assignments i w =
     (case attempt w of
        (True, w') \<Rightarrow> (None, w')
      | (False, w') \<Rightarrow>
          if list_all (\<lambda>k. k \<in> set todo_columns) (map fst assignments)
          then (Some (map (apply_set assignments) (filter (has_id i) (todos w'))),
                w'\<lparr>todos := map (\<lambda>r. if has_id i r then apply_set assignments r else r) (todos w')\<rparr>)
          else (None, w'))"

text \<open>The property names \<^verbatim>\<open>updateTodo\<close>'s parameter type admits:
  \<^verbatim>\<open>Partial<Omit<Todo, 'id' | 'user_id' | 'created_at'>>\<close>.\<close>

definition update_keys :: "string list" where
  "update_keys = [''title'', ''description'', ''priority'', ''category'', ''completed'',
     ''completed_at'', ''due_date'', ''updated_at'']"

text \<open>\<open>updates\<close> is \<^verbatim>\<open>Object.entries(updates)\<close>. With no entry the current row is returned
  by \<^verbatim>\<open>getTodoById\<close>; otherwise \<^verbatim>\<open>updated_at\<close> is appended to the SET list. The networked
  branch returns the first row of \<^verbatim>\<open>RETURNING *\<close> or null, the embedded one reads the row
  back; that read is returned without \<^verbatim>\<open>await\<close>, as the one for the empty field set is.\<close>

definition updateTodo :: "int \<Rightarrow> (string \<times> json) list \<Rightarrow> todo option io" where
  "updateTodo i updates w =
     (if updates = [] then getTodoById i w
      else
        (let fields = updates @ [(''updated_at'', JStr (now w))]
         in case run_update fields i w of
              (None, w') \<Rightarrow> (Inr None, w')
            | (Some rows, w') \<Rightarrow>
                if isProduction w
                then (Inr (case rows of [] \<Rightarrow> None | r # rs \<Rightarrow> Some r), w')
                else getTodoById i w'))"

definition deleteTodo :: "int \<Rightarrow> bool io" where
  "deleteTodo i w =
     (case attempt w of
        (True, w') \<Rightarrow> (Inr False, w')
      | (False, w') \<Rightarrow>
          (Inr (find (has_id i) (todos w') \<noteq> None),
           w'\<lparr>todos := filter (\<lambda>r. \<not> has_id i r) (todos w')\<rparr>))"

text \<open>The aggregate counts the rows of the user and those whose \<^verbatim>\<open>completed\<close> column is
  true (the boolean on the networked backend, the integer 1 on the embedded one).\<close>

record stats =
  total :: nat
  completed :: nat
  completionRate :: int

definition sql_true :: "json option \<Rightarrow> bool" where
  "sql_true v = (v = Some (JBool True) \<or> v = Some (JNum 1))"

definition rate :: "nat \<Rightarrow> nat \<Rightarrow> int" where
  "rate t c = (if 0 < t then Math_round (js_mul (js_div (fl (of_nat c)) (fl (of_nat t))) 100) else 0)"

definition getCompletedTodoStats :: "int \<Rightarrow> stats io" where
  "getCompletedTodoStats userId w =
     (case attempt w of
        (True, w') \<Rightarrow> (Inl StorageError, w')
      | (False, w') \<Rightarrow>
          (let mine = filter (\<lambda>r. r ''user_id'' = Some (JNum userId)) (todos w');
               t = length mine;
               c = length (filter (\<lambda>r. sql_true (r ''completed'')) mine)
           in (Inr \<lparr>total = t, completed = c, completionRate = rate t c\<rparr>, w')))"


section \<open>The handlers (src/app/api/todos)\<close>

text \<open>The session cookie as \<^verbatim>\<open>getSession()\<close> returns it. \<^verbatim>\<open>request.json()\<close> is \<open>None\<close> when the
  body does not parse (it throws a SyntaxError).\<close>

record session =
  isLoggedIn :: bool
  userId :: "int option"

datatype reply =
    ErrorBody string
  | TodoBody todo
  | TodosBody "todo list"
  | SuccessBody
  | StatsBody stats

datatype response = Response nat reply

fun status :: "response \<Rightarrow> nat" where
  "status (Response n b) = n"

datatype 'a flow = Throw exn | Return response | Next 'a

text \<open>\<^verbatim>\<open>!session.isLoggedIn || !session.userId\<close>: \<open>None\<close> when the request is answered 401.\<close>

definition session_user :: "session \<Rightarrow> int option" where
  "session_user s =
     (if \<not> isLoggedIn s then None
      else case userId s of None \<Rightarrow> None | Some u \<Rightarrow> if u = 0 then None else Some u)"

definition validPriorities :: "string list" where
  "validPriorities = [''high'', ''medium'', ''low'']"

definition includes_priority :: "json option \<Rightarrow> bool" where
  "includes_priority v = (case v of Some (JStr p) \<Rightarrow> p \<in> set validPriorities | _ \<Rightarrow> False)"

subsection \<open>PATCH /api/todos/[id]\<close>

definition allowedFields :: "string list" where
  "allowedFields = [''title'', ''description'', ''priority'', ''category'', ''completed'', ''due_date'']"

text \<open>\<^verbatim>\<open>!updates[key] || updates[key].trim().length === 0\<close>\<close>

definition title_is_empty :: "json \<Rightarrow> exn + bool" where
  "title_is_empty v =
     (if \<not> truthy v then Inr True
      else case call_trim v of Inl e \<Rightarrow> Inl e | Inr t \<Rightarrow> Inr (length t = 0))"

fun is_boolean :: "json \<Rightarrow> bool" where
  "is_boolean (JBool b) = True"
| "is_boolean v = False"

text \<open>The body of the loop for a key that is in the payload, with value \<open>v\<close>.\<close>

definition patch_key :: "todo \<Rightarrow> string \<Rightarrow> string \<Rightarrow> json \<Rightarrow> (string \<times> json) list \<Rightarrow> (string \<times> json) list flow" where
  "patch_key existingTodo ts key v filteredUpdates =
     (case (if key = ''title'' then title_is_empty v else Inr False) of
        Inl e \<Rightarrow> Throw e
      | Inr True \<Rightarrow> Return (Response 400 (ErrorBody ''Title cannot be empty''))
      | Inr False \<Rightarrow>
          if key = ''priority'' \<and> \<not> includes_priority (Some v)
          then Return (Response 400 (ErrorBody ''Invalid priority''))
          else if key = ''completed'' \<and> is_boolean v then
            (let f = obj_set key v filteredUpdates
             in if v = JBool True \<and> \<not> truthy_opt (existingTodo ''completed'')
                then Next (obj_set ''completed_at'' (JStr ts) f)
                else if v = JBool False then Next (obj_set ''completed_at'' JNull f)
                else Next f)
          else Next (obj_set key v filteredUpdates))"

fun filter_updates :: "todo \<Rightarrow> string \<Rightarrow> json \<Rightarrow> string list \<Rightarrow> (string \<times> json) list \<Rightarrow> (string \<times> json) list flow" where
  "filter_updates existingTodo ts updates [] filteredUpdates = Next filteredUpdates"
| "filter_updates existingTodo ts updates (key # keys) filteredUpdates =
     (case prop_in key updates of
        Inl e \<Rightarrow> Throw e
      | Inr None \<Rightarrow> filter_updates existingTodo ts updates keys filteredUpdates
      | Inr (Some v) \<Rightarrow>
          (case patch_key existingTodo ts key v filteredUpdates of
             Throw e \<Rightarrow> Throw e
           | Return r \<Rightarrow> Return r
           | Next f \<Rightarrow> filter_updates existingTodo ts updates keys f))"

definition patch_failed :: response where
  "patch_failed = Response 500 (ErrorBody ''An error occurred while updating todo'')"

text \<open>Lines 63 to 72: the filtered payload goes to \<^verbatim>\<open>updateTodo\<close>.\<close>

definition PATCH_store :: "int \<Rightarrow> (string \<times> json) list \<Rightarrow> world \<Rightarrow> response \<times> world" where
  "PATCH_store todoId filteredUpdates w =
     (case updateTodo todoId filteredUpdates w of
        (Inl e, w') \<Rightarrow> (patch_failed, w')
      | (Inr None, w') \<Rightarrow> (Response 500 (ErrorBody ''Failed to update todo''), w')
      | (Inr (Some t), w') \<Rightarrow> (Response 200 (TodoBody t), w'))"

text \<open>Lines 35 to 61: the payload is read and filtered.\<close>

definition PATCH_body :: "int \<Rightarrow> todo \<Rightarrow> json option \<Rightarrow> world \<Rightarrow> response \<times> world" where
  "PATCH_body todoId existingTodo body w =
     (case body of
        None \<Rightarrow> (patch_failed, w)
      | Some updates \<Rightarrow>
          (case filter_updates existingTodo (now w) updates allowedFields [] of
             Throw e \<Rightarrow> (patch_failed, w)
           | Return r \<Rightarrow> (r, w)
           | Next filteredUpdates \<Rightarrow> PATCH_store todoId filteredUpdates w))"

definition PATCH :: "session \<Rightarrow> string \<Rightarrow> json option \<Rightarrow> world \<Rightarrow> response \<times> world" where
  "PATCH s ident body w =
     (case ensureDbInitialized w of
        (Inl e, w1) \<Rightarrow> (patch_failed, w1)
      | (Inr u, w1) \<Rightarrow>
          (case session_user s of
             None \<Rightarrow> (Response 401 (ErrorBody ''Unauthorized''), w1)
           | Some sessionUserId \<Rightarrow>
               (case parseInt ident of
                  None \<Rightarrow> (Response 400 (ErrorBody ''Invalid todo ID''), w1)
                | Some todoId \<Rightarrow>
                    (case getTodoById todoId w1 of
                       (Inl e, w2) \<Rightarrow> (patch_failed, w2)
                     | (Inr None, w2) \<Rightarrow> (Response 404 (ErrorBody ''Todo not found''), w2)
                     | (Inr (Some existingTodo), w2) \<Rightarrow>
                         if existingTodo ''user_id'' \<noteq> Some (JNum sessionUserId)
                         then (Response 403 (ErrorBody ''Unauthorized''), w2)
                         else PATCH_body todoId existingTodo body w2))))"

subsection \<open>DELETE /api/todos/[id]\<close>

definition delete_failed :: response where
  "delete_failed = Response 500 (ErrorBody ''An error occurred while deleting todo'')"

definition DELETE :: "session \<Rightarrow> string \<Rightarrow> world \<Rightarrow> response \<times> world" where
  "DELETE s ident w =
     (case ensureDbInitialized w of
        (Inl e, w1) \<Rightarrow> (delete_failed, w1)
      | (Inr u, w1) \<Rightarrow>
          (case session_user s of
             None \<Rightarrow> (Response 401 (ErrorBody ''Unauthorized''), w1)
           | Some sessionUserId \<Rightarrow>
               (case parseInt ident of
                  None \<Rightarrow> (Response 400 (ErrorBody ''Invalid todo ID''), w1)
                | Some todoId \<Rightarrow>
                    (case getTodoById todoId w1 of
                       (Inl e, w2) \<Rightarrow> (delete_failed, w2)
                     | (Inr None, w2) \<Rightarrow> (Response 404 (ErrorBody ''Todo not found''), w2)
                     | (Inr (Some existingTodo), w2) \<Rightarrow>
                         if existingTodo ''user_id'' \<noteq> Some (JNum sessionUserId)
                         then (Response 403 (ErrorBody ''Unauthorized''), w2)
                         else
                           (case deleteTodo todoId w2 of
                              (Inl e, w3) \<Rightarrow> (delete_failed, w3)
                            | (Inr False, w3) \<Rightarrow> (Response 500 (ErrorBody ''Failed to delete todo''), w3)
                            | (Inr True, w3) \<Rightarrow> (Response 200 SuccessBody, w3))))))"

subsection \<open>GET /api/todos and GET /api/todos/stats\<close>

definition GET_todos :: "session \<Rightarrow> world \<Rightarrow> response \<times> world" where
  "GET_todos s w =
     (case ensureDbInitialized w of
        (Inl e, w1) \<Rightarrow> (Response 500 (ErrorBody ''An error occurred while fetching todos''), w1)
      | (Inr u, w1) \<Rightarrow>
          (case session_user s of
             None \<Rightarrow> (Response 401 (ErrorBody ''Unauthorized''), w1)
           | Some sessionUserId \<Rightarrow>
               (case getTodosByUserId sessionUserId w1 of
                  (Inl e, w2) \<Rightarrow> (Response 500 (ErrorBody ''An error occurred while fetching todos''), w2)
                | (Inr rows, w2) \<Rightarrow> (Response 200 (TodosBody rows), w2))))"

definition GET_stats :: "session \<Rightarrow> world \<Rightarrow> response \<times> world" where
  "GET_stats s w =
     (case ensureDbInitialized w of
        (Inl e, w1) \<Rightarrow> (Response 500 (ErrorBody ''An error occurred while fetching stats''), w1)
      | (Inr u, w1) \<Rightarrow>
          (case session_user s of
             None \<Rightarrow> (Response 401 (ErrorBody ''Unauthorized''), w1)
           | Some sessionUserId \<Rightarrow>
               (case getCompletedTodoStats sessionUserId w1 of
                  (Inl e, w2) \<Rightarrow> (Response 500 (ErrorBody ''An error occurred while fetching stats''), w2)
                | (Inr st, w2) \<Rightarrow> (Response 200 (StatsBody st), w2))))"

subsection \<open>POST /api/todos\<close>

definition post_failed :: response where
  "post_failed = Response 500 (ErrorBody ''An error occurred while creating todo'')"

text \<open>\<^verbatim>\<open>v?.trim() || null\<close>\<close>

definition trim_or_null :: "json option \<Rightarrow> exn + string option" where
  "trim_or_null v =
     (case v of
        None \<Rightarrow> Inr None
      | Some JNull \<Rightarrow> Inr None
      | Some x \<Rightarrow> (case call_trim x of Inl e \<Rightarrow> Inl e | Inr t \<Rightarrow> Inr (if t = [] then None else Some t)))"

text \<open>\<^verbatim>\<open>dueDate || null\<close>\<close>

definition or_null :: "json option \<Rightarrow> json" where
  "or_null v = (case v of None \<Rightarrow> JNull | Some x \<Rightarrow> if truthy x then x else JNull)"

definition finalPriority :: "json option \<Rightarrow> string" where
  "finalPriority priority =
     (case priority of
        Some (JStr p) \<Rightarrow> if includes_priority priority then p else ''medium''
      | _ \<Rightarrow> ''medium'')"

text \<open>Lines 37 to 67, on the five destructured properties.\<close>

definition POST_fields :: "int \<Rightarrow> json option \<Rightarrow> json option \<Rightarrow> json option \<Rightarrow> json option \<Rightarrow> json option \<Rightarrow> world \<Rightarrow> response \<times> world" where
  "POST_fields sessionUserId title description priority category dueDate w =
     (case title of
        None \<Rightarrow> (Response 400 (ErrorBody ''Title is required''), w)
      | Some tv \<Rightarrow>
          if \<not> truthy tv then (Response 400 (ErrorBody ''Title is required''), w)
          else
            (case tv of
               JStr t \<Rightarrow>
                 if length (trim t) = 0 then (Response 400 (ErrorBody ''Title is required''), w)
                 else if length t > 500
                 then (Response 400 (ErrorBody ''Title must be less than 500 characters''), w)
                 else
                   (case trim_or_null description of
                      Inl e \<Rightarrow> (post_failed, w)
                    | Inr d \<Rightarrow>
                        (case trim_or_null category of
                           Inl e \<Rightarrow> (post_failed, w)
                         | Inr c \<Rightarrow>
                             (case createTodo sessionUserId (trim t) d (finalPriority priority) c
                                     (or_null dueDate) w of
                                (Inl e, w') \<Rightarrow> (post_failed, w')
                              | (Inr None, w') \<Rightarrow> (Response 500 (ErrorBody ''Failed to create todo''), w')
                              | (Inr (Some todo), w') \<Rightarrow> (Response 201 (TodoBody todo), w'))))
             | _ \<Rightarrow> (post_failed, w)))"

definition POST :: "session \<Rightarrow> json option \<Rightarrow> world \<Rightarrow> response \<times> world" where
  "POST s body w =
     (case ensureDbInitialized w of
        (Inl e, w1) \<Rightarrow> (post_failed, w1)
      | (Inr u, w1) \<Rightarrow>
          (case session_user s of
             None \<Rightarrow> (Response 401 (ErrorBody ''Unauthorized''), w1)
           | Some sessionUserId \<Rightarrow>
               (case body of
                  None \<Rightarrow> (post_failed, w1)
                | Some JNull \<Rightarrow> (post_failed, w1)
                | Some b \<Rightarrow>
                    POST_fields sessionUserId (get_prop b ''title'') (get_prop b ''description'')
                      (get_prop b ''priority'') (get_prop b ''category'') (get_prop b ''dueDate'') w1)))"


section \<open>Sample states\<close>

text \<open>A process on the embedded backend, initialised, holding one open todo of user 7.\<close>

definition demo_todo :: todo where
  "demo_todo =
     [''id'' \<mapsto> JNum 1, ''user_id'' \<mapsto> JNum 7, ''title'' \<mapsto> JStr ''Buy milk'',
      ''description'' \<mapsto> JNull, ''priority'' \<mapsto> JStr ''medium'', ''category'' \<mapsto> JNull,
      ''completed'' \<mapsto> JNum 0, ''completed_at'' \<mapsto> JNull, ''due_date'' \<mapsto> JNull,
      ''created_at'' \<mapsto> JStr ''2024-01-01 10:00:00'', ''updated_at'' \<mapsto> JStr ''2024-01-01 10:00:00'']"

definition demo_world :: world where
  "demo_world =
     \<lparr>isProduction = False, initialized = True, users = [], todos = [demo_todo],
      next_user_id = 8, next_todo_id = 2, now = ''2024-01-02 09:30:00'', faults = []\<rparr>"


text \<open>The session of another user, 8.\<close>

definition other_session :: session where
  "other_session = \<lparr>isLoggedIn = True, userId = Some 8\<rparr>"

text \<open>The session of the todo's owner, and a creation payload with a priority outside the
  enumeration and a \<^verbatim>\<open>user_id\<close> of its own.\<close>

definition owner_session :: session where
  "owner_session = \<lparr>isLoggedIn = True, userId = Some 7\<rparr>"

definition create_payload :: json where
  "create_payload =
     JObj [(''title'', JStr '' Walk the dog ''), (''priority'', JStr ''urgent''),
           (''user_id'', JNum 999)]"

text \<open>Forty todos of user 7 on the networked backend, the first 23 of them completed.\<close>

definition counted_todo :: "nat \<Rightarrow> todo" where
  "counted_todo n =
     [''id'' \<mapsto> JNum (int n), ''user_id'' \<mapsto> JNum 7, ''title'' \<mapsto> JStr ''task'',
      ''description'' \<mapsto> JNull, ''priority'' \<mapsto> JStr ''medium'', ''category'' \<mapsto> JNull,
      ''completed'' \<mapsto> JBool (n \<le> 23), ''completed_at'' \<mapsto> JNull, ''due_date'' \<mapsto> JNull,
      ''created_at'' \<mapsto> JStr ''2024-01-01T10:00:00.000Z'',
      ''updated_at'' \<mapsto> JStr ''2024-01-01T10:00:00.000Z'']"

definition forty_world :: world where
  "forty_world =
     \<lparr>isProduction = True, initialized = True, users = [], todos = map counted_todo [1..<41],
      next_user_id = 8, next_todo_id = 41, now = ''2024-01-02T09:30:00.000Z'', faults = []\<rparr>"

text \<open>A title of 501 characters, and the sample process with a failure scheduled for its next
  statement.\<close>

definition long_title :: string where
  "long_title = replicate 501 (CHR ''a'')"

definition failing_world :: world where
  "failing_world = demo_world\<lparr>faults := [True]\<rparr>"

text \<open>A title of one letter followed by 500 spaces.\<close>

definition padded_title :: string where
  "padded_title = CHR ''a'' # replicate 500 (CHR '' '')"

section \<open>Properties of the filtered payload\<close>

lemma map_of_obj_set: "map_of (obj_set k v f) k' = (if k' = k then Some v else map_of f k')"
  by (induction f) auto



lemma patch_key_Next:
  assumes "patch_key ex ts key v f = Next f'"
  shows "f' =
     (if key = ''completed'' \<and> is_boolean v then
        (if v = JBool True \<and> \<not> truthy_opt (ex ''completed'')
         then obj_set ''completed_at'' (JStr ts) (obj_set key v f)
         else if v = JBool False then obj_set ''completed_at'' JNull (obj_set key v f)
         else obj_set key v f)
      else obj_set key v f)"
  using assms unfolding patch_key_def Let_def
  by (cases v) (auto split: sum.splits bool.splits if_splits)


lemma patch_key_other:
  assumes "patch_key ex ts key v f = Next f'" "k \<noteq> key" "k = ''completed_at'' \<longrightarrow> key \<noteq> ''completed''"
  shows "map_of f' k = map_of f k"
  unfolding patch_key_Next [OF assms(1)] using assms(2,3)
  by (auto simp: map_of_obj_set)

lemma patch_key_same:
  assumes "patch_key ex ts key v f = Next f'"
  shows "map_of f' key = Some v"
  unfolding patch_key_Next [OF assms]
  by (simp add: map_of_obj_set)

lemma patch_key_completed_at:
  assumes "patch_key ex ts ''completed'' v f = Next f'"
  shows "map_of f' ''completed_at'' =
     (if v = JBool True \<and> \<not> truthy_opt (ex ''completed'') then Some (JStr ts)
      else if v = JBool False then Some JNull
      else map_of f ''completed_at'')"
  unfolding patch_key_Next [OF assms]
  by (cases v) (simp_all add: map_of_obj_set)

lemma filter_updates_other:
  assumes "filter_updates ex ts u ks f = Next f'" "k \<notin> set ks"
    "k = ''completed_at'' \<longrightarrow> ''completed'' \<notin> set ks"
  shows "map_of f' k = map_of f k"
  using assms
proof (induction ks arbitrary: f)
  case Nil
  then show ?case by simp
next
  case (Cons key keys)
  from Cons.prems(2,3) have k: "k \<notin> set keys" "k = ''completed_at'' \<longrightarrow> ''completed'' \<notin> set keys"
    "k \<noteq> key" "k = ''completed_at'' \<longrightarrow> key \<noteq> ''completed''"
    by auto
  show ?case
  proof (cases "prop_in key u")
    case (Inl e)
    with Cons.prems(1) show ?thesis by simp
  next
    case (Inr p)
    show ?thesis
    proof (cases p)
      case None
      with Inr Cons.prems(1) have "filter_updates ex ts u keys f = Next f'" by simp
      from Cons.IH [OF this k(1,2)] show ?thesis .
    next
      case (Some v)
      with Inr Cons.prems(1) obtain f1 where
        f1: "patch_key ex ts key v f = Next f1" and
        rest: "filter_updates ex ts u keys f1 = Next f'"
        by (auto split: flow.splits)
      from Cons.IH [OF rest k(1,2)] patch_key_other [OF f1 k(3,4)] show ?thesis by simp
    qed
  qed
qed

lemma filter_updates_copied:
  assumes "filter_updates ex ts u ks f = Next f'" "distinct ks" "''completed_at'' \<notin> set ks"
    "k \<in> set ks" "prop_in k u = Inr (Some v)"
  shows "map_of f' k = Some v"
  using assms
proof (induction ks arbitrary: f)
  case Nil
  then show ?case by simp
next
  case (Cons key keys)
  show ?case
  proof (cases "k = key")
    case True
    with Cons.prems(1,5) obtain f1 where
      f1: "patch_key ex ts key v f = Next f1" and
      rest: "filter_updates ex ts u keys f1 = Next f'"
      by (auto split: flow.splits)
    from Cons.prems(2,3) True have "k \<notin> set keys" "k = ''completed_at'' \<longrightarrow> ''completed'' \<notin> set keys"
      by auto
    from filter_updates_other [OF rest this] patch_key_same [OF f1] True show ?thesis by simp
  next
    case False
    with Cons.prems(4) have mem: "k \<in> set keys" by simp
    from Cons.prems(2,3) have d: "distinct keys" "''completed_at'' \<notin> set keys" by auto
    from Cons.prems(1) obtain f1 where rest: "filter_updates ex ts u keys f1 = Next f'"
      by (auto split: sum.splits option.splits flow.splits)
    from Cons.IH [OF rest d mem Cons.prems(5)] show ?thesis .
  qed
qed

lemma filter_updates_completed_at:
  assumes "filter_updates ex ts u ks f = Next f'" "distinct ks" "''completed_at'' \<notin> set ks"
    "''completed'' \<in> set ks" "prop_in ''completed'' u = Inr p"
  shows "map_of f' ''completed_at'' =
     (if p = Some (JBool True) \<and> \<not> truthy_opt (ex ''completed'') then Some (JStr ts)
      else if p = Some (JBool False) then Some JNull
      else map_of f ''completed_at'')"
  using assms
proof (induction ks arbitrary: f)
  case Nil
  then show ?case by simp
next
  case (Cons key keys)
  from Cons.prems(2,3) have d: "distinct keys" "''completed_at'' \<notin> set keys" "key \<noteq> ''completed_at''"
    by auto
  show ?case
  proof (cases "key = ''completed''")
    case True
    with Cons.prems(2) have out: "''completed_at'' \<notin> set keys"
      "''completed_at'' = ''completed_at'' \<longrightarrow> ''completed'' \<notin> set keys"
      using d(2) by auto
    show ?thesis
    proof (cases p)
      case None
      with True Cons.prems(1,5) have "filter_updates ex ts u keys f = Next f'" by simp
      from filter_updates_other [OF this out] None show ?thesis by simp
    next
      case (Some v)
      with True Cons.prems(1,5) obtain f1 where
        f1: "patch_key ex ts ''completed'' v f = Next f1" and
        rest: "filter_updates ex ts u keys f1 = Next f'"
        by (auto split: flow.splits)
      from filter_updates_other [OF rest out] patch_key_completed_at [OF f1] Some show ?thesis
        by simp
    qed
  next
    case False
    with Cons.prems(4) have mem: "''completed'' \<in> set keys" by simp
    have other: "\<And>v f1. patch_key ex ts key v f = Next f1 \<Longrightarrow>
        map_of f1 ''completed_at'' = map_of f ''completed_at''"
      using patch_key_other [of ex ts key _ f _ "''completed_at''"] False d(3) by simp
    show ?thesis
    proof (cases "prop_in key u")
      case (Inl e)
      with Cons.prems(1) show ?thesis by simp
    next
      case (Inr q)
      show ?thesis
      proof (cases q)
        case None
        with Inr Cons.prems(1) have "filter_updates ex ts u keys f = Next f'" by simp
        from Cons.IH [OF this d(1,2) mem Cons.prems(5)] show ?thesis .
      next
        case (Some v)
        with Inr Cons.prems(1) obtain f1 where
          f1: "patch_key ex ts key v f = Next f1" and
          rest: "filter_updates ex ts u keys f1 = Next f'"
          by (auto split: flow.splits)
        from Cons.IH [OF rest d(1,2) mem Cons.prems(5)] other [OF f1] show ?thesis by simp
      qed
    qed
  qed
qed


section \<open>Properties of the persistence layer\<close>

lemma attempt_frame:
  assumes "attempt w = (b, w')"
  shows "todos w' = todos w" "users w' = users w" "now w' = now w"
    "isProduction w' = isProduction w" "initialized w' = initialized w"
    "next_todo_id w' = next_todo_id w" "next_user_id w' = next_user_id w"
    "True \<notin> set (faults w) \<Longrightarrow> True \<notin> set (faults w')"
  using assms by (auto simp: attempt_def split: list.splits)

lemma attempt_accepts:
  assumes "True \<notin> set (faults w)"
  obtains w' where "attempt w = (False, w')"
  using assms by (cases "faults w") (auto simp: attempt_def)

lemma apply_set_snoc: "apply_set (as @ [(k, v)]) r = (apply_set as r)(k \<mapsto> v)"
  by (simp add: apply_set_def)

lemma apply_set_Cons: "apply_set ((k, v) # as) r = apply_set as (r(k \<mapsto> v))"
  by (simp add: apply_set_def)

lemma apply_set_Nil: "apply_set [] r = r"
  by (simp add: apply_set_def)

lemma apply_set_absent: "k \<notin> fst ` set as \<Longrightarrow> apply_set as r k = r k"
proof (induction as rule: rev_induct)
  case Nil
  then show ?case by (simp add: apply_set_Nil)
next
  case (snoc p ps)
  obtain a b where p: "p = (a, b)" by (cases p)
  from snoc.prems p have "k \<noteq> a" "k \<notin> fst ` set ps" by auto
  with snoc.IH p show ?case by (simp add: apply_set_snoc)
qed


lemma find_map_update:
  assumes "\<And>r. P (g r) = P r"
  shows "find P (map (\<lambda>r. if P r then g r else r) xs) = map_option g (find P xs)"
  using assms by (induction xs) auto


lemma has_id_apply_set:
  assumes "''id'' \<notin> fst ` set as"
  shows "has_id j (apply_set as r) = has_id j r"
  using apply_set_absent [OF assms] by (simp add: has_id_def)


lemma returned_first:
  "(case map g (filter P xs) of [] \<Rightarrow> None | r # rs \<Rightarrow> Some r) = map_option g (find P xs)"
  by (induction xs) auto

lemma getTodoById_accepts:
  assumes "True \<notin> set (faults w)"
  obtains w' where "getTodoById i w = (Inr (find (has_id i) (todos w)), w')" "todos w' = todos w"
proof -
  from assms obtain w' where a: "attempt w = (False, w')" by (rule attempt_accepts)
  from attempt_frame(1) [OF a] a have "getTodoById i w = (Inr (find (has_id i) (todos w)), w')"
    by (simp add: getTodoById_def)
  with attempt_frame(1) [OF a] that show thesis by blast
qed

lemma updateTodo_accepts:
  assumes h: "True \<notin> set (faults w)"
    and ne: "updates \<noteq> []"
    and keys: "set (map fst updates) \<subseteq> set update_keys"
  obtains w' where
    "updateTodo i updates w =
       (Inr (map_option (apply_set (updates @ [(''updated_at'', JStr (now w))])) (find (has_id i) (todos w))), w')"
    "todos w' = map (\<lambda>r. if has_id i r then apply_set (updates @ [(''updated_at'', JStr (now w))]) r else r) (todos w)"
proof -
  let ?fields = "updates @ [(''updated_at'', JStr (now w))]"
  let ?g = "apply_set ?fields"
  from h obtain w1 where a: "attempt w = (False, w1)" by (rule attempt_accepts)
  have cols: "list_all (\<lambda>k. k \<in> set todo_columns) (map fst ?fields)"
    using keys by (auto simp: list_all_iff update_keys_def todo_columns_def)
  have noid: "''id'' \<notin> fst ` set ?fields"
    using keys by (auto simp: update_keys_def)
  let ?w2 = "w1\<lparr>todos := map (\<lambda>r. if has_id i r then ?g r else r) (todos w1)\<rparr>"
  have ru: "run_update ?fields i w = (Some (map ?g (filter (has_id i) (todos w))), ?w2)"
    using a cols attempt_frame(1) [OF a] by (simp add: run_update_def)
  have found: "find (has_id i) (todos ?w2) = map_option ?g (find (has_id i) (todos w))"
    using find_map_update [of "has_id i" ?g "todos w1"] has_id_apply_set [OF noid]
      attempt_frame(1) [OF a] by simp
  have t2: "todos ?w2 = map (\<lambda>r. if has_id i r then ?g r else r) (todos w)"
    using attempt_frame(1) [OF a] by simp
  show thesis
  proof (cases "isProduction w")
    case True
    with ru ne have "updateTodo i updates w = (Inr (map_option ?g (find (has_id i) (todos w))), ?w2)"
      by (simp add: updateTodo_def Let_def returned_first)
    with t2 that show thesis by blast
  next
    case False
    have "True \<notin> set (faults ?w2)" using attempt_frame(8) [OF a h] by simp
    then obtain w3 where g: "getTodoById i ?w2 = (Inr (find (has_id i) (todos ?w2)), w3)"
      and t3: "todos w3 = todos ?w2" by (rule getTodoById_accepts)
    from False ru ne g found
    have "updateTodo i updates w = (Inr (map_option ?g (find (has_id i) (todos w))), w3)"
      by (simp add: updateTodo_def Let_def)
    with t2 t3 that show thesis by simp
  qed
qed

lemma demo_found: "find (has_id 1) (todos demo_world) = Some demo_todo"
  by (simp add: demo_world_def has_id_def demo_todo_def)



section \<open>The update handler's payload\<close>

lemma allowedFields_facts:
  "distinct allowedFields" "''completed_at'' \<notin> set allowedFields"
  "''completed'' \<in> set allowedFields" "''title'' \<in> set allowedFields"
  "''id'' \<notin> set allowedFields"
  "set allowedFields \<subseteq> set update_keys"
  by (simp_all add: allowedFields_def update_keys_def)



lemma getTodoById_Inr:
  assumes "getTodoById i w = (Inr r, w')"
  shows "r = find (has_id i) (todos w)" "todos w' = todos w"
proof -
  obtain b w1 where a: "attempt w = (b, w1)" by (cases "attempt w")
  with assms have "b = False" "w' = w1" "r = find (has_id i) (todos w1)"
    by (auto simp: getTodoById_def split: bool.splits)
  with attempt_frame(1) [OF a] show "r = find (has_id i) (todos w)" "todos w' = todos w"
    by simp_all
qed

lemma updateTodo_Some:
  assumes res: "updateTodo i updates w = (Inr (Some t'), w')"
    and keys: "set (map fst updates) \<subseteq> set update_keys"
  shows "\<exists>t. find (has_id i) (todos w) = Some t
          \<and> t' = (if updates = [] then t else apply_set (updates @ [(''updated_at'', JStr (now w))]) t)
          \<and> find (has_id i) (todos w') = Some t'"
proof (cases "updates = []")
  case True
  with res have "getTodoById i w = (Inr (Some t'), w')" by (simp add: updateTodo_def)
  from getTodoById_Inr [OF this] True show ?thesis by simp
next
  case False
  let ?fields = "updates @ [(''updated_at'', JStr (now w))]"
  let ?g = "apply_set ?fields"
  obtain b w1 where a: "attempt w = (b, w1)" by (cases "attempt w")
  have cols: "list_all (\<lambda>k. k \<in> set todo_columns) (map fst ?fields)"
    using keys by (auto simp: list_all_iff update_keys_def todo_columns_def)
  have noid: "''id'' \<notin> fst ` set ?fields"
    using keys by (auto simp: update_keys_def)
  let ?w2 = "w1\<lparr>todos := map (\<lambda>r. if has_id i r then ?g r else r) (todos w1)\<rparr>"
  have b: "b = False"
    using res False a by (cases b) (simp_all add: updateTodo_def run_update_def Let_def)
  with a cols have ru: "run_update ?fields i w = (Some (map ?g (filter (has_id i) (todos w))), ?w2)"
    using attempt_frame(1) [OF a] by (simp add: run_update_def)
  have found: "find (has_id i) (todos ?w2) = map_option ?g (find (has_id i) (todos w))"
    using find_map_update [of "has_id i" ?g "todos w1"] has_id_apply_set [OF noid]
      attempt_frame(1) [OF a] by simp
  have "Some t' = find (has_id i) (todos ?w2) \<and> todos w' = todos ?w2"
  proof (cases "isProduction w")
    case True
    with res False ru found show ?thesis
      by (auto simp: updateTodo_def Let_def returned_first)
  next
    case prod: False
    with res False ru have "getTodoById i ?w2 = (Inr (Some t'), w')"
      by (simp add: updateTodo_def Let_def)
    from getTodoById_Inr [OF this] show ?thesis by simp
  qed
  then have eq: "find (has_id i) (todos ?w2) = Some t'" and tw: "todos w' = todos ?w2"
    by simp_all
  from eq found obtain t where "find (has_id i) (todos w) = Some t" "t' = ?g t"
    by (cases "find (has_id i) (todos w)") auto
  with False eq tw show ?thesis by simp
qed




lemma patch_key_passes:
  assumes "key = ''title'' \<longrightarrow> title_is_empty v = Inr False"
    and "key = ''priority'' \<longrightarrow> includes_priority (Some v)"
  shows "\<exists>f'. patch_key ex ts key v f = Next f'"
  using assms unfolding patch_key_def Let_def by auto

lemma filter_updates_passes:
  assumes "\<And>x. map_of kvs ''title'' = Some x \<Longrightarrow> title_is_empty x = Inr False"
    and "\<And>x. map_of kvs ''priority'' = Some x \<Longrightarrow> includes_priority (Some x)"
  shows "\<exists>f'. filter_updates ex ts (JObj kvs) ks f = Next f'"
  using assms
proof (induction ks arbitrary: f)
  case Nil
  then show ?case by simp
next
  case (Cons key keys)
  have ih: "\<And>f. \<exists>f'. filter_updates ex ts (JObj kvs) keys f = Next f'"
    by (rule Cons.IH) (fact Cons.prems)+
  show ?case
  proof (cases "map_of kvs key")
    case None
    with ih [of f] show ?thesis by simp
  next
    case (Some v)
    have "key = ''title'' \<longrightarrow> title_is_empty v = Inr False"
      using Cons.prems(1) [of v] Some by auto
    moreover have "key = ''priority'' \<longrightarrow> includes_priority (Some v)"
      using Cons.prems(2) [of v] Some by auto
    ultimately obtain f1 where "patch_key ex ts key v f = Next f1"
      using patch_key_passes by blast
    with Some ih [of f1] show ?thesis by simp
  qed
qed

text \<open>C10. A payload whose \<^verbatim>\<open>completed\<close> is not a boolean is not rejected for it: when its
  title and priority, if given, pass their checks, the loop completes, the filtered payload
  holds the raw value under \<^verbatim>\<open>completed\<close> and has no \<^verbatim>\<open>completed_at\<close> entry, and the handler goes
  on to \<^verbatim>\<open>updateTodo\<close> with that payload.\<close>

theorem non_boolean_completed_copied:
  assumes "map_of kvs ''completed'' = Some v" and "\<not> is_boolean v"
    and "map_of kvs ''title'' = None
         \<or> (\<exists>x. map_of kvs ''title'' = Some x \<and> title_is_empty x = Inr False)"
    and "map_of kvs ''priority'' = None
         \<or> (\<exists>x. map_of kvs ''priority'' = Some x \<and> includes_priority (Some x))"
  shows "\<exists>filtered.
           filter_updates existingTodo (now w) (JObj kvs) allowedFields [] = Next filtered
         \<and> map_of filtered ''completed'' = Some v
         \<and> map_of filtered ''completed_at'' = None
         \<and> PATCH_body todoId existingTodo (Some (JObj kvs)) w = PATCH_store todoId filtered w"
proof -
  have t: "\<And>x. map_of kvs ''title'' = Some x \<Longrightarrow> title_is_empty x = Inr False"
    using assms(3) by auto
  have pr: "\<And>x. map_of kvs ''priority'' = Some x \<Longrightarrow> includes_priority (Some x)"
    using assms(4) by auto
  from filter_updates_passes [OF t pr] obtain filtered where
    run: "filter_updates existingTodo (now w) (JObj kvs) allowedFields [] = Next filtered"
    by blast
  have p: "prop_in ''completed'' (JObj kvs) = Inr (Some v)" using assms(1) by simp
  from filter_updates_copied [OF run allowedFields_facts(1,2,3) p]
  have c: "map_of filtered ''completed'' = Some v" .
  from filter_updates_completed_at [OF run allowedFields_facts(1,2,3) p] assms(2)
  have ca: "map_of filtered ''completed_at'' = None" by (cases v) auto
  from run have "PATCH_body todoId existingTodo (Some (JObj kvs)) w = PATCH_store todoId filtered w"
    by (simp add: PATCH_body_def)
  with run c ca show ?thesis by blast
qed

theorem non_boolean_completed_copied_witness:
  "filter_updates demo_todo (now demo_world) (JObj [(''completed'', JStr ''yes'')]) allowedFields []
     = Next [(''completed'', JStr ''yes'')]
   \<and> PATCH_body 1 demo_todo (Some (JObj [(''completed'', JStr ''yes'')])) demo_world
     = PATCH_store 1 [(''completed'', JStr ''yes'')] demo_world"
proof -
  have "\<exists>filtered.
           filter_updates demo_todo (now demo_world) (JObj [(''completed'', JStr ''yes'')]) allowedFields []
             = Next filtered
         \<and> map_of filtered ''completed'' = Some (JStr ''yes'')
         \<and> map_of filtered ''completed_at'' = None
         \<and> PATCH_body 1 demo_todo (Some (JObj [(''completed'', JStr ''yes'')])) demo_world
             = PATCH_store 1 filtered demo_world"
    by (rule non_boolean_completed_copied) simp_all
  moreover have "filter_updates demo_todo (now demo_world) (JObj [(''completed'', JStr ''yes'')]) allowedFields []
     = Next [(''completed'', JStr ''yes'')]"
    by (simp add: allowedFields_def patch_key_def)
  ultimately show ?thesis by auto
qed

section \<open>The handlers' answers\<close>

lemma run_schema_frame:
  assumes "run_schema n w = (r, w')"
  shows "todos w' = todos w \<and> users w' = users w \<and> now w' = now w
       \<and> isProduction w' = isProduction w \<and> next_todo_id w' = next_todo_id w
       \<and> (True \<notin> set (faults w) \<longrightarrow> True \<notin> set (faults w') \<and> r = Inr ())"
  using assms
proof (induction n arbitrary: w)
  case 0
  then show ?case by auto
next
  case (Suc n)
  obtain b w1 where a: "attempt w = (b, w1)" by (cases "attempt w")
  note fr = attempt_frame [OF a]
  show ?case
  proof (cases b)
    case True
    with a Suc.prems have "w' = w1" "r = Inl StorageError" by auto
    moreover from True a have "True \<in> set (faults w)"
      by (auto simp: attempt_def split: list.splits)
    ultimately show ?thesis using fr by simp
  next
    case False
    with a Suc.prems have "run_schema n w1 = (r, w')" by simp
    from Suc.IH [OF this] fr show ?thesis by simp
  qed
qed

lemma ensureDbInitialized_frame:
  assumes "ensureDbInitialized w = (r, w')"
  shows "todos w' = todos w \<and> users w' = users w \<and> now w' = now w
       \<and> isProduction w' = isProduction w \<and> next_todo_id w' = next_todo_id w
       \<and> (True \<notin> set (faults w) \<longrightarrow> True \<notin> set (faults w') \<and> r = Inr ())"
proof (cases "initialized w")
  case True
  with assms show ?thesis by (auto simp: ensureDbInitialized_def)
next
  case False
  obtain r1 w1 where i: "run_schema 3 w = (r1, w1)" by (cases "run_schema 3 w")
  note fr = run_schema_frame [OF i]
  show ?thesis
  proof (cases r1)
    case (Inl e)
    with i False assms have "w' = w1" "r = Inl e" by (auto simp: ensureDbInitialized_def initDb_def)
    with fr Inl show ?thesis by auto
  next
    case (Inr u)
    with i False assms have "w' = w1\<lparr>initialized := True\<rparr>" "r = Inr ()"
      by (auto simp: ensureDbInitialized_def initDb_def)
    with fr show ?thesis by auto
  qed
qed

lemma getTodoById_frame:
  assumes "getTodoById i w = (r, w')"
  shows "todos w' = todos w"
proof -
  obtain b w1 where a: "attempt w = (b, w1)" by (cases "attempt w")
  with assms have "w' = w1" by (auto simp: getTodoById_def split: bool.splits)
  with attempt_frame(1) [OF a] show ?thesis by simp
qed

text \<open>What the handlers find when the engine accepts: the storage is initialised and the
  lookup returns the stored todo.\<close>

lemma load_accepts:
  assumes "True \<notin> set (faults w)"
  obtains w1 w2 where "ensureDbInitialized w = (Inr (), w1)"
    "getTodoById i w1 = (Inr (find (has_id i) (todos w)), w2)"
    "todos w2 = todos w" "now w2 = now w" "True \<notin> set (faults w2)"
    "isProduction w2 = isProduction w" "next_todo_id w2 = next_todo_id w"
proof -
  obtain r w1 where e: "ensureDbInitialized w = (r, w1)" by (cases "ensureDbInitialized w")
  from ensureDbInitialized_frame [OF e] assms
  have r: "r = Inr ()" and f1: "True \<notin> set (faults w1)" and t1: "todos w1 = todos w"
    and n1: "now w1 = now w" and p1: "isProduction w1 = isProduction w"
    and c1: "next_todo_id w1 = next_todo_id w" by auto
  from f1 obtain w2 where a: "attempt w1 = (False, w2)" by (rule attempt_accepts)
  note fr = attempt_frame [OF a]
  have "getTodoById i w1 = (Inr (find (has_id i) (todos w)), w2)"
    using a fr(1) t1 by (simp add: getTodoById_def)
  with e r fr t1 n1 f1 p1 c1 that show thesis by simp
qed

lemma filter_updates_Return:
  assumes "filter_updates ex ts u ks f = Return r"
  shows "r = Response 400 (ErrorBody ''Title cannot be empty'')
       \<or> r = Response 400 (ErrorBody ''Invalid priority'')"
  using assms
proof (induction ks arbitrary: f)
  case Nil
  then show ?case by simp
next
  case (Cons key keys)
  show ?case
  proof (cases "prop_in key u")
    case (Inl e)
    with Cons.prems show ?thesis by simp
  next
    case (Inr p)
    show ?thesis
    proof (cases p)
      case None
      with Inr Cons.prems Cons.IH show ?thesis by simp
    next
      case (Some v)
      show ?thesis
      proof (cases "patch_key ex ts key v f")
        case (Throw e)
        with Inr Some Cons.prems show ?thesis by simp
      next
        case (Return r')
        with Inr Some Cons.prems have "r' = r" by simp
        with Return show ?thesis
          unfolding patch_key_def Let_def
          by (auto split: sum.splits bool.splits if_splits)
      next
        case (Next f1)
        with Inr Some Cons.prems Cons.IH show ?thesis by simp
      qed
    qed
  qed
qed

lemma PATCH_store_status:
  assumes "PATCH_store i f w = (r, w')"
  shows "status r = 500 \<or> status r = 200"
  using assms
  by (auto simp: PATCH_store_def patch_failed_def split: prod.splits sum.splits option.splits)

lemma PATCH_body_status:
  assumes "PATCH_body i t body w = (r, w')"
  shows "status r = 500 \<or> status r = 200
       \<or> r = Response 400 (ErrorBody ''Title cannot be empty'')
       \<or> r = Response 400 (ErrorBody ''Invalid priority'')"
proof (cases body)
  case None
  with assms have "r = patch_failed" by (simp add: PATCH_body_def)
  then have "status r = 500" by (simp add: patch_failed_def)
  then show ?thesis by blast
next
  case (Some u)
  show ?thesis
  proof (cases "filter_updates t (now w) u allowedFields []")
    case (Throw e)
    with Some assms have "r = patch_failed" by (simp add: PATCH_body_def)
    then have "status r = 500" by (simp add: patch_failed_def)
    then show ?thesis by blast
  next
    case (Return r')
    with Some assms have "r' = r" by (simp add: PATCH_body_def)
    with filter_updates_Return [OF Return] show ?thesis by blast
  next
    case (Next f)
    with Some assms have "PATCH_store i f w = (r, w')" by (simp add: PATCH_body_def)
    from PATCH_store_status [OF this] show ?thesis by blast
  qed
qed


lemma deleteTodo_status:
  assumes "(case deleteTodo i w of
              (Inl e, w3) \<Rightarrow> (delete_failed, w3)
            | (Inr False, w3) \<Rightarrow> (Response 500 (ErrorBody ''Failed to delete todo''), w3)
            | (Inr True, w3) \<Rightarrow> (Response 200 SuccessBody, w3)) = (r, w')"
  shows "status r = 500 \<or> status r = 200"
  using assms
  by (auto simp: delete_failed_def split: prod.splits sum.splits bool.splits)


lemma PATCH_stage:
  "ensureDbInitialized w = (Inl e, w1) \<Longrightarrow> PATCH s ident body w = (patch_failed, w1)"
  "ensureDbInitialized w = (Inr u, w1) \<Longrightarrow> session_user s = None \<Longrightarrow>
     PATCH s ident body w = (Response 401 (ErrorBody ''Unauthorized''), w1)"
  "ensureDbInitialized w = (Inr u, w1) \<Longrightarrow> session_user s = Some uid \<Longrightarrow> parseInt ident = None \<Longrightarrow>
     PATCH s ident body w = (Response 400 (ErrorBody ''Invalid todo ID''), w1)"
  "ensureDbInitialized w = (Inr u, w1) \<Longrightarrow> session_user s = Some uid \<Longrightarrow> parseInt ident = Some tid \<Longrightarrow>
     getTodoById tid w1 = (Inl e, w2) \<Longrightarrow> PATCH s ident body w = (patch_failed, w2)"
  "ensureDbInitialized w = (Inr u, w1) \<Longrightarrow> session_user s = Some uid \<Longrightarrow> parseInt ident = Some tid \<Longrightarrow>
     getTodoById tid w1 = (Inr None, w2) \<Longrightarrow>
     PATCH s ident body w = (Response 404 (ErrorBody ''Todo not found''), w2)"
  "ensureDbInitialized w = (Inr u, w1) \<Longrightarrow> session_user s = Some uid \<Longrightarrow> parseInt ident = Some tid \<Longrightarrow>
     getTodoById tid w1 = (Inr (Some t), w2) \<Longrightarrow>
     PATCH s ident body w =
       (if t ''user_id'' \<noteq> Some (JNum uid) then (Response 403 (ErrorBody ''Unauthorized''), w2)
        else PATCH_body tid t body w2)"
  by (simp_all add: PATCH_def)

lemma DELETE_stage:
  "ensureDbInitialized w = (Inl e, w1) \<Longrightarrow> DELETE s ident w = (delete_failed, w1)"
  "ensureDbInitialized w = (Inr u, w1) \<Longrightarrow> session_user s = None \<Longrightarrow>
     DELETE s ident w = (Response 401 (ErrorBody ''Unauthorized''), w1)"
  "ensureDbInitialized w = (Inr u, w1) \<Longrightarrow> session_user s = Some uid \<Longrightarrow> parseInt ident = None \<Longrightarrow>
     DELETE s ident w = (Response 400 (ErrorBody ''Invalid todo ID''), w1)"
  "ensureDbInitialized w = (Inr u, w1) \<Longrightarrow> session_user s = Some uid \<Longrightarrow> parseInt ident = Some tid \<Longrightarrow>
     getTodoById tid w1 = (Inl e, w2) \<Longrightarrow> DELETE s ident w = (delete_failed, w2)"
  "ensureDbInitialized w = (Inr u, w1) \<Longrightarrow> session_user s = Some uid \<Longrightarrow> parseInt ident = Some tid \<Longrightarrow>
     getTodoById tid w1 = (Inr None, w2) \<Longrightarrow>
     DELETE s ident w = (Response 404 (ErrorBody ''Todo not found''), w2)"
  "ensureDbInitialized w = (Inr u, w1) \<Longrightarrow> session_user s = Some uid \<Longrightarrow> parseInt ident = Some tid \<Longrightarrow>
     getTodoById tid w1 = (Inr (Some t), w2) \<Longrightarrow>
     DELETE s ident w =
       (if t ''user_id'' \<noteq> Some (JNum uid) then (Response 403 (ErrorBody ''Unauthorized''), w2)
        else (case deleteTodo tid w2 of
                (Inl e, w3) \<Rightarrow> (delete_failed, w3)
              | (Inr False, w3) \<Rightarrow> (Response 500 (ErrorBody ''Failed to delete todo''), w3)
              | (Inr True, w3) \<Rightarrow> (Response 200 SuccessBody, w3)))"
  by (simp_all add: DELETE_def)


lemma PATCH_body_codes:
  assumes "PATCH_body i t body w = (r, w')"
  shows "status r \<noteq> 403" "status r \<noteq> 404" "r \<noteq> Response 400 (ErrorBody ''Invalid todo ID'')"
proof -
  note d = PATCH_body_status [OF assms]
  have a: "status (Response 400 (ErrorBody ''Title cannot be empty'')) = 400"
    "status (Response 400 (ErrorBody ''Invalid priority'')) = 400" by simp_all
  have b: "Response 400 (ErrorBody ''Title cannot be empty'') \<noteq> Response 400 (ErrorBody ''Invalid todo ID'')"
    "Response 400 (ErrorBody ''Invalid priority'') \<noteq> Response 400 (ErrorBody ''Invalid todo ID'')"
    "status (Response 400 (ErrorBody ''Invalid todo ID'')) = 400"
    by simp_all
  from d a show "status r \<noteq> 403" by (elim disjE) simp_all
  from d a show "status r \<noteq> 404" by (elim disjE) simp_all
  from d b show "r \<noteq> Response 400 (ErrorBody ''Invalid todo ID'')"
    by (elim disjE) auto
qed

lemma DELETE_tail_codes:
  assumes "(case deleteTodo i w of
              (Inl e, w3) \<Rightarrow> (delete_failed, w3)
            | (Inr False, w3) \<Rightarrow> (Response 500 (ErrorBody ''Failed to delete todo''), w3)
            | (Inr True, w3) \<Rightarrow> (Response 200 SuccessBody, w3)) = (r, w')"
  shows "status r \<noteq> 403" "status r \<noteq> 404" "r \<noteq> Response 400 (ErrorBody ''Invalid todo ID'')"
proof -
  note d = deleteTodo_status [OF assms]
  have b: "status (Response 400 (ErrorBody ''Invalid todo ID'')) = 400" by simp
  from d show "status r \<noteq> 403" by (elim disjE) simp_all
  from d show "status r \<noteq> 404" by (elim disjE) simp_all
  from d b show "r \<noteq> Response 400 (ErrorBody ''Invalid todo ID'')" by (elim disjE) auto
qed

lemma PATCH_invalid_id_iff:
  "fst (PATCH s ident body w) = Response 400 (ErrorBody ''Invalid todo ID'')
   \<longleftrightarrow> fst (ensureDbInitialized w) = Inr () \<and> session_user s \<noteq> None \<and> parseInt ident = None"
proof -
  obtain r0 w1 where e: "ensureDbInitialized w = (r0, w1)" by (cases "ensureDbInitialized w")
  show ?thesis
  proof (cases r0)
    case (Inl x)
    from PATCH_stage(1) [OF e [unfolded Inl]] e Inl show ?thesis
      by (simp add: patch_failed_def)
  next
    case (Inr u)
    note e' = e [unfolded Inr]
    show ?thesis
    proof (cases "session_user s")
      case None
      from PATCH_stage(2) [OF e' None] None show ?thesis by simp
    next
      case (Some uid)
      show ?thesis
      proof (cases "parseInt ident")
        case None
        from PATCH_stage(3) [OF e' Some None] e' Some None show ?thesis by simp
      next
        case tid: (Some tid)
        obtain r2 w2 where g: "getTodoById tid w1 = (r2, w2)" by (cases "getTodoById tid w1")
        have "fst (PATCH s ident body w) \<noteq> Response 400 (ErrorBody ''Invalid todo ID'')"
        proof (cases r2)
          case (Inl x)
          from PATCH_stage(4) [OF e' Some tid g [unfolded Inl]] show ?thesis
            by (simp add: patch_failed_def)
        next
          case (Inr p)
          show ?thesis
          proof (cases p)
            case None
            from PATCH_stage(5) [OF e' Some tid g [unfolded Inr None]] show ?thesis by simp
          next
            case t: (Some t)
            note st = PATCH_stage(6) [OF e' Some tid g [unfolded Inr t], of body]
            show ?thesis
            proof (cases "t ''user_id'' \<noteq> Some (JNum uid)")
              case True
              with st show ?thesis by simp
            next
              case False
              obtain rb wb where b: "PATCH_body tid t body w2 = (rb, wb)"
                by (cases "PATCH_body tid t body w2")
              with st False have "fst (PATCH s ident body w) = rb" by simp
              with PATCH_body_codes(3) [OF b] show ?thesis by simp
            qed
          qed
        qed
        with tid show ?thesis by simp
      qed
    qed
  qed
qed

lemma DELETE_invalid_id_iff:
  "fst (DELETE s ident w) = Response 400 (ErrorBody ''Invalid todo ID'')
   \<longleftrightarrow> fst (ensureDbInitialized w) = Inr () \<and> session_user s \<noteq> None \<and> parseInt ident = None"
proof -
  obtain r0 w1 where e: "ensureDbInitialized w = (r0, w1)" by (cases "ensureDbInitialized w")
  show ?thesis
  proof (cases r0)
    case (Inl x)
    from DELETE_stage(1) [OF e [unfolded Inl]] e Inl show ?thesis
      by (simp add: delete_failed_def)
  next
    case (Inr u)
    note e' = e [unfolded Inr]
    show ?thesis
    proof (cases "session_user s")
      case None
      from DELETE_stage(2) [OF e' None] None show ?thesis by simp
    next
      case (Some uid)
      show ?thesis
      proof (cases "parseInt ident")
        case None
        from DELETE_stage(3) [OF e' Some None] e' Some None show ?thesis by simp
      next
        case tid: (Some tid)
        obtain r2 w2 where g: "getTodoById tid w1 = (r2, w2)" by (cases "getTodoById tid w1")
        have "fst (DELETE s ident w) \<noteq> Response 400 (ErrorBody ''Invalid todo ID'')"
        proof (cases r2)
          case (Inl x)
          from DELETE_stage(4) [OF e' Some tid g [unfolded Inl]] show ?thesis
            by (simp add: delete_failed_def)
        next
          case (Inr p)
          show ?thesis
          proof (cases p)
            case None
            from DELETE_stage(5) [OF e' Some tid g [unfolded Inr None]] show ?thesis by simp
          next
            case t: (Some t)
            note st = DELETE_stage(6) [OF e' Some tid g [unfolded Inr t]]
            show ?thesis
            proof (cases "t ''user_id'' \<noteq> Some (JNum uid)")
              case True
              with st show ?thesis by simp
            next
              case False
              obtain rb wb where b: "(case deleteTodo tid w2 of
                    (Inl e, w3) \<Rightarrow> (delete_failed, w3)
                  | (Inr False, w3) \<Rightarrow> (Response 500 (ErrorBody ''Failed to delete todo''), w3)
                  | (Inr True, w3) \<Rightarrow> (Response 200 SuccessBody, w3)) = (rb, wb)"
                by (cases "(case deleteTodo tid w2 of
                    (Inl e, w3) \<Rightarrow> (delete_failed, w3)
                  | (Inr False, w3) \<Rightarrow> (Response 500 (ErrorBody ''Failed to delete todo''), w3)
                  | (Inr True, w3) \<Rightarrow> (Response 200 SuccessBody, w3))")
              with st False have "fst (DELETE s ident w) = rb" by simp
              with DELETE_tail_codes(3) [OF b] show ?thesis by simp
            qed
          qed
        qed
        with tid show ?thesis by simp
      qed
    qed
  qed
qed

text \<open>C9. On the update and the delete endpoint the answer is the invalid-id error exactly when
  the storage is initialised, the session is authenticated and \<^verbatim>\<open>parseInt\<close> of the path segment
  is NaN. \<^verbatim>\<open>parseInt\<close> reads \<^verbatim>\<open>12abc\<close> as 12, so a request for \<^verbatim>\<open>12abc\<close> is the request for
  todo 12.\<close>

theorem invalid_id_iff_parseInt_NaN:
  "(fst (PATCH s ident body w) = Response 400 (ErrorBody ''Invalid todo ID'')
      \<longleftrightarrow> fst (ensureDbInitialized w) = Inr () \<and> session_user s \<noteq> None \<and> parseInt ident = None)
   \<and> (fst (DELETE s ident w) = Response 400 (ErrorBody ''Invalid todo ID'')
      \<longleftrightarrow> fst (ensureDbInitialized w) = Inr () \<and> session_user s \<noteq> None \<and> parseInt ident = None)
   \<and> parseInt ''12abc'' = Some 12
   \<and> parseInt ''12'' = Some 12
   \<and> PATCH s ''12abc'' body w = PATCH s ''12'' body w
   \<and> DELETE s ''12abc'' w = DELETE s ''12'' w"
proof -
  have a: "parseInt ''12abc'' = Some 12"
    by (simp add: parseInt_def strip_sign_def strip_prefix_def is_ws_def is_digit_def
        digit_val_def digits_value_def)
  have b: "parseInt ''12'' = Some 12"
    by (simp add: parseInt_def strip_sign_def strip_prefix_def is_ws_def is_digit_def
        digit_val_def digits_value_def)
  have c: "PATCH s ''12abc'' body w = PATCH s ''12'' body w"
    unfolding PATCH_def a b ..
  have d: "DELETE s ''12abc'' w = DELETE s ''12'' w"
    unfolding DELETE_def a b ..
  from PATCH_invalid_id_iff [of s ident body w] DELETE_invalid_id_iff [of s ident w] a b c d
  show ?thesis by blast
qed

lemma PATCH_forbidden_only:
  assumes "status (fst (PATCH s ident body w)) = 403"
  obtains uid tid t u w1 w2 where "ensureDbInitialized w = (Inr u, w1)"
    "session_user s = Some uid" "parseInt ident = Some tid"
    "getTodoById tid w1 = (Inr (Some t), w2)" "t ''user_id'' \<noteq> Some (JNum uid)"
proof -
  obtain r0 w1 where e: "ensureDbInitialized w = (r0, w1)" by (cases "ensureDbInitialized w")
  show thesis
  proof (cases r0)
    case (Inl x)
    from PATCH_stage(1) [OF e [unfolded Inl]] assms show ?thesis
      by (simp add: patch_failed_def)
  next
    case (Inr u)
    note e' = e [unfolded Inr]
    show ?thesis
    proof (cases "session_user s")
      case None
      from PATCH_stage(2) [OF e' None] assms show ?thesis by simp
    next
      case (Some uid)
      show ?thesis
      proof (cases "parseInt ident")
        case None
        from PATCH_stage(3) [OF e' Some None] assms show ?thesis by simp
      next
        case tid: (Some tid)
        obtain r2 w2 where g: "getTodoById tid w1 = (r2, w2)" by (cases "getTodoById tid w1")
        show ?thesis
        proof (cases r2)
          case (Inl x)
          from PATCH_stage(4) [OF e' Some tid g [unfolded Inl]] assms show ?thesis
            by (simp add: patch_failed_def)
        next
          case (Inr p)
          show ?thesis
          proof (cases p)
            case None
            from PATCH_stage(5) [OF e' Some tid g [unfolded Inr None]] assms show ?thesis by simp
          next
            case t: (Some t)
            note st = PATCH_stage(6) [OF e' Some tid g [unfolded Inr t], of body]
            show ?thesis
            proof (cases "t ''user_id'' \<noteq> Some (JNum uid)")
              case True
              from that [OF e' Some tid g [unfolded Inr t] True] show ?thesis .
            next
              case False
              obtain rb wb where b: "PATCH_body tid t body w2 = (rb, wb)"
                by (cases "PATCH_body tid t body w2")
              with st False have "fst (PATCH s ident body w) = rb" by simp
              with PATCH_body_codes(1) [OF b] assms show ?thesis by simp
            qed
          qed
        qed
      qed
    qed
  qed
qed

lemma DELETE_forbidden_only:
  assumes "status (fst (DELETE s ident w)) = 403"
  obtains uid tid t u w1 w2 where "ensureDbInitialized w = (Inr u, w1)"
    "session_user s = Some uid" "parseInt ident = Some tid"
    "getTodoById tid w1 = (Inr (Some t), w2)" "t ''user_id'' \<noteq> Some (JNum uid)"
proof -
  obtain r0 w1 where e: "ensureDbInitialized w = (r0, w1)" by (cases "ensureDbInitialized w")
  show thesis
  proof (cases r0)
    case (Inl x)
    from DELETE_stage(1) [OF e [unfolded Inl]] assms show ?thesis
      by (simp add: delete_failed_def)
  next
    case (Inr u)
    note e' = e [unfolded Inr]
    show ?thesis
    proof (cases "session_user s")
      case None
      from DELETE_stage(2) [OF e' None] assms show ?thesis by simp
    next
      case (Some uid)
      show ?thesis
      proof (cases "parseInt ident")
        case None
        from DELETE_stage(3) [OF e' Some None] assms show ?thesis by simp
      next
        case tid: (Some tid)
        obtain r2 w2 where g: "getTodoById tid w1 = (r2, w2)" by (cases "getTodoById tid w1")
        show ?thesis
        proof (cases r2)
          case (Inl x)
          from DELETE_stage(4) [OF e' Some tid g [unfolded Inl]] assms show ?thesis
            by (simp add: delete_failed_def)
        next
          case (Inr p)
          show ?thesis
          proof (cases p)
            case None
            from DELETE_stage(5) [OF e' Some tid g [unfolded Inr None]] assms show ?thesis by simp
          next
            case t: (Some t)
            note st = DELETE_stage(6) [OF e' Some tid g [unfolded Inr t]]
            show ?thesis
            proof (cases "t ''user_id'' \<noteq> Some (JNum uid)")
              case True
              from that [OF e' Some tid g [unfolded Inr t] True] show ?thesis .
            next
              case False
              obtain rb wb where b: "(case deleteTodo tid w2 of
                    (Inl e, w3) \<Rightarrow> (delete_failed, w3)
                  | (Inr False, w3) \<Rightarrow> (Response 500 (ErrorBody ''Failed to delete todo''), w3)
                  | (Inr True, w3) \<Rightarrow> (Response 200 SuccessBody, w3)) = (rb, wb)"
                by (cases "(case deleteTodo tid w2 of
                    (Inl e, w3) \<Rightarrow> (delete_failed, w3)
                  | (Inr False, w3) \<Rightarrow> (Response 500 (ErrorBody ''Failed to delete todo''), w3)
                  | (Inr True, w3) \<Rightarrow> (Response 200 SuccessBody, w3))")
              with st False have "fst (DELETE s ident w) = rb" by simp
              with DELETE_tail_codes(1) [OF b] assms show ?thesis by simp
            qed
          qed
        qed
      qed
    qed
  qed
qed

lemma loaded_is_stored:
  assumes "ensureDbInitialized w = (Inr u, w1)" "getTodoById tid w1 = (Inr p, w2)"
  shows "p = find (has_id tid) (todos w)" "todos w2 = todos w"
  using getTodoById_Inr [OF assms(2)] ensureDbInitialized_frame [OF assms(1)] by simp_all

lemma other_session_user: "session_user other_session = Some 8"
  by (simp add: session_user_def other_session_def)

lemma parseInt_1: "parseInt ''1'' = Some 1"
  by (simp add: parseInt_def strip_sign_def strip_prefix_def is_ws_def is_digit_def
      digit_val_def digits_value_def)

lemma parseInt_5: "parseInt ''5'' = Some 5"
  by (simp add: parseInt_def strip_sign_def strip_prefix_def is_ws_def is_digit_def
      digit_val_def digits_value_def)

lemma demo_healthy: "True \<notin> set (faults demo_world)"
  by (simp add: demo_world_def)

lemma demo_missing: "find (has_id 5) (todos demo_world) = None"
  by (simp add: demo_world_def has_id_def demo_todo_def)

lemma demo_owner: "demo_todo ''user_id'' = Some (JNum 7)"
  by (simp add: demo_todo_def)

text \<open>C7. For an authenticated session and a valid id, on both mutating endpoints: when the
  engine accepts and no todo has the id, the answer is not-found (404), whoever the session
  user is; the answer is forbidden (403) only when a todo with the id is stored and its
  \<^verbatim>\<open>user_id\<close> is not the session's, and, the engine accepting, whenever that is so.\<close>

theorem not_found_before_ownership:
  assumes "session_user s = Some uid" and "parseInt ident = Some tid"
  shows "(True \<notin> set (faults w) \<and> find (has_id tid) (todos w) = None
            \<longrightarrow> fst (PATCH s ident body w) = Response 404 (ErrorBody ''Todo not found'')
              \<and> fst (DELETE s ident w) = Response 404 (ErrorBody ''Todo not found''))
       \<and> (status (fst (PATCH s ident body w)) = 403
            \<longrightarrow> (\<exists>t. find (has_id tid) (todos w) = Some t \<and> t ''user_id'' \<noteq> Some (JNum uid)))
       \<and> (status (fst (DELETE s ident w)) = 403
            \<longrightarrow> (\<exists>t. find (has_id tid) (todos w) = Some t \<and> t ''user_id'' \<noteq> Some (JNum uid)))
       \<and> (True \<notin> set (faults w)
              \<and> (\<exists>t. find (has_id tid) (todos w) = Some t \<and> t ''user_id'' \<noteq> Some (JNum uid))
            \<longrightarrow> status (fst (PATCH s ident body w)) = 403 \<and> status (fst (DELETE s ident w)) = 403)"
proof (intro conjI impI)
  assume h: "True \<notin> set (faults w) \<and> find (has_id tid) (todos w) = None"
  then obtain w1 w2 where l: "ensureDbInitialized w = (Inr (), w1)"
    "getTodoById tid w1 = (Inr (find (has_id tid) (todos w)), w2)"
    using load_accepts [of w tid] by blast
  from h l(2) have g: "getTodoById tid w1 = (Inr None, w2)" by simp
  from PATCH_stage(5) [OF l(1) assms g]
  show "fst (PATCH s ident body w) = Response 404 (ErrorBody ''Todo not found'')" by simp
  from DELETE_stage(5) [OF l(1) assms g]
  show "fst (DELETE s ident w) = Response 404 (ErrorBody ''Todo not found'')" by simp
next
  assume "status (fst (PATCH s ident body w)) = 403"
  then obtain uid' tid' t u w1 w2 where f: "ensureDbInitialized w = (Inr u, w1)"
    "session_user s = Some uid'" "parseInt ident = Some tid'"
    "getTodoById tid' w1 = (Inr (Some t), w2)" "t ''user_id'' \<noteq> Some (JNum uid')"
    by (rule PATCH_forbidden_only)
  from f(2,3) assms have eq: "uid' = uid" "tid' = tid" by simp_all
  from loaded_is_stored(1) [OF f(1,4)] eq have "find (has_id tid) (todos w) = Some t" by simp
  with f(5) eq
  show "\<exists>t. find (has_id tid) (todos w) = Some t \<and> t ''user_id'' \<noteq> Some (JNum uid)"
    by blast
next
  assume "status (fst (DELETE s ident w)) = 403"
  then obtain uid' tid' t u w1 w2 where f: "ensureDbInitialized w = (Inr u, w1)"
    "session_user s = Some uid'" "parseInt ident = Some tid'"
    "getTodoById tid' w1 = (Inr (Some t), w2)" "t ''user_id'' \<noteq> Some (JNum uid')"
    by (rule DELETE_forbidden_only)
  from f(2,3) assms have eq: "uid' = uid" "tid' = tid" by simp_all
  from loaded_is_stored(1) [OF f(1,4)] eq have "find (has_id tid) (todos w) = Some t" by simp
  with f(5) eq
  show "\<exists>t. find (has_id tid) (todos w) = Some t \<and> t ''user_id'' \<noteq> Some (JNum uid)"
    by blast
next
  assume h: "True \<notin> set (faults w)
     \<and> (\<exists>t. find (has_id tid) (todos w) = Some t \<and> t ''user_id'' \<noteq> Some (JNum uid))"
  then obtain t where t: "find (has_id tid) (todos w) = Some t" "t ''user_id'' \<noteq> Some (JNum uid)"
    by blast
  from h obtain w1 w2 where l: "ensureDbInitialized w = (Inr (), w1)"
    "getTodoById tid w1 = (Inr (find (has_id tid) (todos w)), w2)"
    using load_accepts [of w tid] by blast
  from t l(2) have g: "getTodoById tid w1 = (Inr (Some t), w2)" by simp
  from PATCH_stage(6) [OF l(1) assms g, of body] t(2)
  show "status (fst (PATCH s ident body w)) = 403" by simp
  from DELETE_stage(6) [OF l(1) assms g] t(2)
  show "status (fst (DELETE s ident w)) = 403" by simp
qed

theorem not_found_before_ownership_witness:
  "fst (PATCH other_session ''5'' (Some (JObj [(''completed'', JBool True)])) demo_world) = Response 404 (ErrorBody ''Todo not found'')
   \<and> fst (DELETE other_session ''5'' demo_world) = Response 404 (ErrorBody ''Todo not found'')
   \<and> status (fst (PATCH other_session ''1'' (Some (JObj [(''completed'', JBool True)])) demo_world)) = 403
   \<and> status (fst (DELETE other_session ''1'' demo_world)) = 403"
proof -
  have "\<exists>t. find (has_id 1) (todos demo_world) = Some t \<and> t ''user_id'' \<noteq> Some (JNum 8)"
    using demo_found demo_owner by simp
  with not_found_before_ownership [OF other_session_user parseInt_1, of demo_world "Some (JObj [(''completed'', JBool True)])"]
    demo_healthy
  have a: "status (fst (PATCH other_session ''1'' (Some (JObj [(''completed'', JBool True)])) demo_world)) = 403
     \<and> status (fst (DELETE other_session ''1'' demo_world)) = 403" by blast
  from not_found_before_ownership [OF other_session_user parseInt_5, of demo_world "Some (JObj [(''completed'', JBool True)])"]
    demo_healthy demo_missing
  have b: "fst (PATCH other_session ''5'' (Some (JObj [(''completed'', JBool True)])) demo_world) = Response 404 (ErrorBody ''Todo not found'')
     \<and> fst (DELETE other_session ''5'' demo_world) = Response 404 (ErrorBody ''Todo not found'')"
    by blast
  from a b show ?thesis by blast
qed

text \<open>C4. A session of user \<open>a\<close> asks to update or to delete a stored todo of another user
  \<open>b\<close>, the engine accepting: both endpoints answer forbidden (403), the state after the
  request is the one the lookup left, and the table, the todo with it, is as it was.\<close>

theorem foreign_todo_forbidden:
  assumes "True \<notin> set (faults w)" and "session_user s = Some a" and "parseInt ident = Some tid"
    and "find (has_id tid) (todos w) = Some t" and "t ''user_id'' = Some (JNum b)" and "b \<noteq> a"
  shows "(\<exists>w1 w'. ensureDbInitialized w = (Inr (), w1) \<and> getTodoById tid w1 = (Inr (Some t), w')
            \<and> PATCH s ident body w = (Response 403 (ErrorBody ''Unauthorized''), w')
            \<and> DELETE s ident w = (Response 403 (ErrorBody ''Unauthorized''), w')
            \<and> todos w' = todos w \<and> find (has_id tid) (todos w') = Some t)"
proof -
  from assms(1) obtain w1 w2 where l: "ensureDbInitialized w = (Inr (), w1)"
    "getTodoById tid w1 = (Inr (find (has_id tid) (todos w)), w2)" "todos w2 = todos w"
    using load_accepts [of w tid] by blast
  from assms(4) l(2) have g: "getTodoById tid w1 = (Inr (Some t), w2)" by simp
  from assms(5,6) have o: "t ''user_id'' \<noteq> Some (JNum a)" by simp
  from PATCH_stage(6) [OF l(1) assms(2,3) g, of body] o
  have p: "PATCH s ident body w = (Response 403 (ErrorBody ''Unauthorized''), w2)" by simp
  from DELETE_stage(6) [OF l(1) assms(2,3) g] o
  have d: "DELETE s ident w = (Response 403 (ErrorBody ''Unauthorized''), w2)" by simp
  from l(1,3) g p d assms(4) show ?thesis by auto
qed

theorem foreign_todo_forbidden_witness:
  "\<exists>w'. PATCH other_session ''1'' (Some (JObj [(''title'', JStr ''mine now'')])) demo_world
          = (Response 403 (ErrorBody ''Unauthorized''), w')
      \<and> DELETE other_session ''1'' demo_world = (Response 403 (ErrorBody ''Unauthorized''), w')
      \<and> todos w' = [demo_todo]"
proof -
  have "(7::int) \<noteq> 8" by simp
  from foreign_todo_forbidden [OF demo_healthy other_session_user parseInt_1 demo_found demo_owner this,
      of "Some (JObj [(''title'', JStr ''mine now'')])"]
  show ?thesis by (auto simp: demo_world_def)
qed

text \<open>Whatever the engine does, a request answered 403 leaves the table as it was.\<close>

lemma forbidden_leaves_table:
  "status (fst (PATCH s ident body w)) = 403 \<Longrightarrow> todos (snd (PATCH s ident body w)) = todos w"
  "status (fst (DELETE s ident w)) = 403 \<Longrightarrow> todos (snd (DELETE s ident w)) = todos w"
proof -
  assume "status (fst (PATCH s ident body w)) = 403"
  then obtain uid tid t u w1 w2 where f: "ensureDbInitialized w = (Inr u, w1)"
    "session_user s = Some uid" "parseInt ident = Some tid"
    "getTodoById tid w1 = (Inr (Some t), w2)" "t ''user_id'' \<noteq> Some (JNum uid)"
    by (rule PATCH_forbidden_only)
  from PATCH_stage(6) [OF f(1-4), of body] f(5) loaded_is_stored(2) [OF f(1,4)]
  show "todos (snd (PATCH s ident body w)) = todos w" by simp
next
  assume "status (fst (DELETE s ident w)) = 403"
  then obtain uid tid t u w1 w2 where f: "ensureDbInitialized w = (Inr u, w1)"
    "session_user s = Some uid" "parseInt ident = Some tid"
    "getTodoById tid w1 = (Inr (Some t), w2)" "t ''user_id'' \<noteq> Some (JNum uid)"
    by (rule DELETE_forbidden_only)
  from DELETE_stage(6) [OF f(1-4)] f(5) loaded_is_stored(2) [OF f(1,4)]
  show "todos (snd (DELETE s ident w)) = todos w" by simp
qed

section \<open>The creation handler\<close>

lemma find_snoc:
  "find P (xs @ [r]) = (case find P xs of Some x \<Rightarrow> Some x | None \<Rightarrow> if P r then Some r else None)"
  by (induction xs) auto

lemma length_trim_le: "length (trim t) \<le> length t"
proof -
  have "length (dropWhile is_ws (rev (dropWhile is_ws t))) \<le> length (rev (dropWhile is_ws t))"
    by (rule length_dropWhile_le)
  also have "\<dots> \<le> length t" by (simp add: length_dropWhile_le)
  finally show ?thesis by (simp add: trim_def)
qed

lemma new_todo_fields:
  "new_todo w uid title d p c dd ''id'' = Some (JNum (next_todo_id w))"
  "new_todo w uid title d p c dd ''user_id'' = Some (JNum uid)"
  "new_todo w uid title d p c dd ''title'' = Some (JStr title)"
  "new_todo w uid title d p c dd ''priority'' = Some (JStr p)"
  "new_todo w uid title d p c dd ''completed_at'' = Some JNull"
  by (simp_all add: new_todo_def)

lemma createTodo_Some:
  assumes res: "createTodo uid title d p c dd w = (Inr (Some todo), w')"
    and fresh: "find (has_id (next_todo_id w)) (todos w) = None"
  shows "todo ''user_id'' = Some (JNum uid)" "todo ''title'' = Some (JStr title)"
    "todo ''priority'' = Some (JStr p)"
    "find (has_id (next_todo_id w)) (todos w') = Some todo"
proof -
  obtain b w1 where a: "attempt w = (b, w1)" by (cases "attempt w")
  note fr = attempt_frame [OF a]
  let ?r = "new_todo w1 uid title d p c dd"
  let ?w2 = "w1\<lparr>todos := todos w1 @ [?r], next_todo_id := next_todo_id w1 + 1\<rparr>"
  have b: "b = False" using res a by (cases b) (simp_all add: createTodo_def)
  have id: "has_id (next_todo_id w) ?r"
    using fr(6) by (simp add: has_id_def new_todo_fields)
  have found: "find (has_id (next_todo_id w)) (todos ?w2) = Some ?r"
    using fresh fr(1) id by (simp add: find_snoc)
  have "todo = ?r \<and> todos w' = todos ?w2"
  proof (cases "isProduction w")
    case True
    with res a b show ?thesis by (auto simp: createTodo_def Let_def)
  next
    case False
    with res a b fr(6) have "getTodoById (next_todo_id w) ?w2 = (Inr (Some todo), w')"
      by (simp add: createTodo_def Let_def)
    from getTodoById_Inr [OF this] found show ?thesis by simp
  qed
  with found show "todo ''user_id'' = Some (JNum uid)" "todo ''title'' = Some (JStr title)"
    "todo ''priority'' = Some (JStr p)"
    "find (has_id (next_todo_id w)) (todos w') = Some todo"
    by (simp_all add: new_todo_fields)
qed

lemma POST_body:
  assumes "b \<noteq> JNull" "ensureDbInitialized w = (Inr u, w1)" "session_user s = Some uid"
  shows "POST s (Some b) w =
     POST_fields uid (get_prop b ''title'') (get_prop b ''description'')
       (get_prop b ''priority'') (get_prop b ''category'') (get_prop b ''dueDate'') w1"
  using assms by (cases b) (simp_all add: POST_def)

lemma POST_fields_created:
  assumes "POST_fields uid title d p c dd w = (Response 201 (TodoBody todo), w')"
  shows "\<exists>t d' c'. title = Some (JStr t) \<and> trim t \<noteq> [] \<and> length t \<le> 500
          \<and> createTodo uid (trim t) d' (finalPriority p) c' (or_null dd) w = (Inr (Some todo), w')"
proof (cases title)
  case None
  with assms show ?thesis by (simp add: POST_fields_def)
next
  case (Some tv)
  show ?thesis
  proof (cases tv)
    case (JStr t)
    have tr: "truthy tv \<and> trim t \<noteq> [] \<and> length t \<le> 500"
      using assms Some JStr by (auto simp: POST_fields_def split: if_splits)
    show ?thesis
    proof (cases "trim_or_null d")
      case (Inl e)
      with assms Some JStr tr show ?thesis by (simp add: POST_fields_def post_failed_def)
    next
      case d': (Inr d')
      show ?thesis
      proof (cases "trim_or_null c")
        case (Inl e)
        with assms Some JStr tr d' show ?thesis by (simp add: POST_fields_def post_failed_def)
      next
        case c': (Inr c')
        obtain r w2 where cr: "createTodo uid (trim t) d' (finalPriority p) c' (or_null dd) w = (r, w2)"
          by (cases "createTodo uid (trim t) d' (finalPriority p) c' (or_null dd) w")
        with assms Some JStr tr d' c' have "r = Inr (Some todo) \<and> w2 = w'"
          by (auto simp: POST_fields_def post_failed_def split: sum.splits option.splits)
        with cr Some JStr tr show ?thesis by auto
      qed
    qed
  qed (use assms Some in \<open>auto simp: POST_fields_def post_failed_def split: if_splits\<close>)
qed

lemma POST_fields_rejects:
  assumes "title = None \<or> title = Some JNull
      \<or> (\<exists>t. title = Some (JStr t) \<and> (trim t = [] \<or> 500 < length (trim t)))"
  shows "\<exists>msg. POST_fields uid title d p c dd w = (Response 400 (ErrorBody msg), w)"
proof -
  from assms consider "title = None" | "title = Some JNull"
    | t where "title = Some (JStr t)" "trim t = []"
    | t where "title = Some (JStr t)" "trim t \<noteq> []" "500 < length (trim t)"
    by blast
  then show ?thesis
  proof cases
    case 1
    then show ?thesis by (simp add: POST_fields_def)
  next
    case 2
    then show ?thesis by (simp add: POST_fields_def)
  next
    case 3
    then show ?thesis by (simp add: POST_fields_def)
  next
    case 4
    with length_trim_le [of t] have "500 < length t" by simp
    with 4 show ?thesis by (simp add: POST_fields_def)
  qed
qed

lemma finalPriority_medium: "\<not> includes_priority p \<Longrightarrow> finalPriority p = ''medium''"
  by (auto simp: finalPriority_def split: option.splits json.splits)

lemma finalPriority_kept: "includes_priority p \<Longrightarrow> p = Some (JStr (finalPriority p))"
  by (auto simp: finalPriority_def includes_priority_def split: option.splits json.splits)

lemma POST_fields_priority:
  "POST_fields uid title d p c dd w = POST_fields uid title d (Some (JStr (finalPriority p))) c dd w"
proof -
  have eq: "finalPriority (Some (JStr (finalPriority p))) = finalPriority p"
    by (auto simp: finalPriority_def includes_priority_def validPriorities_def
        split: option.splits json.splits)
  show ?thesis unfolding POST_fields_def eq by (rule refl)
qed


lemma owner_session_user: "session_user owner_session = Some 7"
  by (simp add: session_user_def owner_session_def)

lemma demo_initialized: "ensureDbInitialized demo_world = (Inr (), demo_world)"
  by (simp add: ensureDbInitialized_def demo_world_def)

lemma demo_fresh: "find (has_id (next_todo_id demo_world)) (todos demo_world) = None"
  by (simp add: demo_world_def has_id_def demo_todo_def)

lemma createTodo_accepts:
  assumes h: "True \<notin> set (faults w)"
    and fresh: "find (has_id (next_todo_id w)) (todos w) = None"
  shows "\<exists>todo w'. createTodo uid title d p c dd w = (Inr (Some todo), w')"
proof -
  from h obtain w1 where a: "attempt w = (False, w1)" by (rule attempt_accepts)
  note fr = attempt_frame [OF a]
  let ?r = "new_todo w1 uid title d p c dd"
  let ?w2 = "w1\<lparr>todos := todos w1 @ [?r], next_todo_id := next_todo_id w1 + 1\<rparr>"
  show ?thesis
  proof (cases "isProduction w")
    case True
    with a show ?thesis by (simp add: createTodo_def Let_def)
  next
    case False
    have id: "has_id (next_todo_id w1) ?r"
      by (simp add: has_id_def new_todo_fields)
    have found: "find (has_id (next_todo_id w1)) (todos ?w2) = Some ?r"
      using fresh fr(1,6) id by (simp add: find_snoc)
    have "True \<notin> set (faults ?w2)" using fr(8) [OF h] by simp
    then obtain w3 where
      "getTodoById (next_todo_id w1) ?w2 = (Inr (find (has_id (next_todo_id w1)) (todos ?w2)), w3)"
      by (rule getTodoById_accepts)
    with found False a show ?thesis by (simp add: createTodo_def Let_def)
  qed
qed

lemma POST_fields_accepts:
  assumes "True \<notin> set (faults w)" and "find (has_id (next_todo_id w)) (todos w) = None"
    and "trim t \<noteq> []" and "length t \<le> 500"
    and "trim_or_null d = Inr d'" and "trim_or_null c = Inr c'"
  shows "\<exists>todo w'. POST_fields uid (Some (JStr t)) d p c dd w = (Response 201 (TodoBody todo), w')"
proof -
  from createTodo_accepts [OF assms(1,2)] obtain todo w' where
    "createTodo uid (trim t) d' (finalPriority p) c' (or_null dd) w = (Inr (Some todo), w')"
    by blast
  moreover from assms(3) have "t \<noteq> []" by (auto simp: trim_def)
  ultimately show ?thesis using assms(3-6) by (simp add: POST_fields_def)
qed

text \<open>C8. A creation request of an authenticated session, the storage initialised and the
  payload not \<^verbatim>\<open>null\<close>. A title that is absent, null or a string that is empty after trimming
  or longer than 500 characters after trimming is answered 400. When a todo is created (201),
  its \<^verbatim>\<open>user_id\<close> is the session's user, whatever the payload holds, its priority is the
  payload's when that is one of \<^verbatim>\<open>high\<close>, \<^verbatim>\<open>medium\<close>, \<^verbatim>\<open>low\<close> and \<^verbatim>\<open>medium\<close> otherwise, and it
  is the record stored. The priority never changes the answer otherwise: the handler does
  with any priority what it does with the coerced one.\<close>

theorem create_validation_and_stamping:
  assumes "session_user s = Some uid" and "fst (ensureDbInitialized w) = Inr ()" and "b \<noteq> JNull"
  shows "(get_prop b ''title'' = None \<or> get_prop b ''title'' = Some JNull
            \<or> (\<exists>t. get_prop b ''title'' = Some (JStr t) \<and> (trim t = [] \<or> 500 < length (trim t)))
          \<longrightarrow> status (fst (POST s (Some b) w)) = 400)
       \<and> (\<forall>todo w'. POST s (Some b) w = (Response 201 (TodoBody todo), w')
              \<and> find (has_id (next_todo_id w)) (todos w) = None
          \<longrightarrow> todo ''user_id'' = Some (JNum uid)
            \<and> todo ''priority'' = Some (JStr (finalPriority (get_prop b ''priority'')))
            \<and> find (has_id (next_todo_id w)) (todos w') = Some todo)
       \<and> (\<not> includes_priority (get_prop b ''priority'')
          \<longrightarrow> finalPriority (get_prop b ''priority'') = ''medium'')
       \<and> (includes_priority (get_prop b ''priority'')
          \<longrightarrow> get_prop b ''priority'' = Some (JStr (finalPriority (get_prop b ''priority''))))
       \<and> (\<forall>w1 t d p c dd.
            POST_fields uid t d p c dd w1 = POST_fields uid t d (Some (JStr (finalPriority p))) c dd w1)"
proof -
  obtain r0 w1 where e0: "ensureDbInitialized w = (r0, w1)" by (cases "ensureDbInitialized w")
  with assms(2) have e: "ensureDbInitialized w = (Inr (), w1)" by simp
  note post = POST_body [OF assms(3) e assms(1)]
  note fr = ensureDbInitialized_frame [OF e]
  have one: "get_prop b ''title'' = None \<or> get_prop b ''title'' = Some JNull
            \<or> (\<exists>t. get_prop b ''title'' = Some (JStr t) \<and> (trim t = [] \<or> 500 < length (trim t)))
          \<longrightarrow> status (fst (POST s (Some b) w)) = 400"
  proof
    assume "get_prop b ''title'' = None \<or> get_prop b ''title'' = Some JNull
            \<or> (\<exists>t. get_prop b ''title'' = Some (JStr t) \<and> (trim t = [] \<or> 500 < length (trim t)))"
    from POST_fields_rejects [OF this] obtain msg where
      "POST_fields uid (get_prop b ''title'') (get_prop b ''description'')
         (get_prop b ''priority'') (get_prop b ''category'') (get_prop b ''dueDate'') w1
       = (Response 400 (ErrorBody msg), w1)" by blast
    with post show "status (fst (POST s (Some b) w)) = 400" by simp
  qed
  have two: "\<forall>todo w'. POST s (Some b) w = (Response 201 (TodoBody todo), w')
              \<and> find (has_id (next_todo_id w)) (todos w) = None
          \<longrightarrow> todo ''user_id'' = Some (JNum uid)
            \<and> todo ''priority'' = Some (JStr (finalPriority (get_prop b ''priority'')))
            \<and> find (has_id (next_todo_id w)) (todos w') = Some todo"
  proof (intro allI impI)
    fix todo w'
    assume h: "POST s (Some b) w = (Response 201 (TodoBody todo), w')
              \<and> find (has_id (next_todo_id w)) (todos w) = None"
    with post have "POST_fields uid (get_prop b ''title'') (get_prop b ''description'')
         (get_prop b ''priority'') (get_prop b ''category'') (get_prop b ''dueDate'') w1
       = (Response 201 (TodoBody todo), w')" by simp
    from POST_fields_created [OF this] obtain t d' c' where
      cr: "createTodo uid (trim t) d' (finalPriority (get_prop b ''priority'')) c'
             (or_null (get_prop b ''dueDate'')) w1 = (Inr (Some todo), w')" by blast
    from h fr have fresh: "find (has_id (next_todo_id w1)) (todos w1) = None" by simp
    from fr have same: "next_todo_id w1 = next_todo_id w" by simp
    from createTodo_Some(1,3,4) [OF cr fresh]
    show "todo ''user_id'' = Some (JNum uid)
            \<and> todo ''priority'' = Some (JStr (finalPriority (get_prop b ''priority'')))
            \<and> find (has_id (next_todo_id w)) (todos w') = Some todo"
      unfolding same by (intro conjI)
  qed
  have three: "\<not> includes_priority (get_prop b ''priority'')
          \<longrightarrow> finalPriority (get_prop b ''priority'') = ''medium''"
    by (simp add: finalPriority_medium)
  have four: "includes_priority (get_prop b ''priority'')
          \<longrightarrow> get_prop b ''priority'' = Some (JStr (finalPriority (get_prop b ''priority'')))"
    using finalPriority_kept [of "get_prop b ''priority''"] by blast
  have five: "\<forall>w1 t d p c dd.
            POST_fields uid t d p c dd w1 = POST_fields uid t d (Some (JStr (finalPriority p))) c dd w1"
    by (intro allI) (rule POST_fields_priority)
  show ?thesis
    by (rule conjI [OF one conjI [OF two conjI [OF three conjI [OF four five]]]])
qed

theorem create_validation_and_stamping_witness:
  "status (fst (POST owner_session (Some (JObj [(''title'', JStr ''   '')])) demo_world)) = 400
   \<and> (\<exists>todo w'. POST owner_session (Some create_payload) demo_world = (Response 201 (TodoBody todo), w')
        \<and> todo ''user_id'' = Some (JNum 7)
        \<and> todo ''priority'' = Some (JStr ''medium'')
        \<and> find (has_id 2) (todos w') = Some todo)"
proof -
  have init: "fst (ensureDbInitialized demo_world) = Inr ()" by (simp add: demo_initialized)
  have blank: "get_prop (JObj [(''title'', JStr ''   '')]) ''title'' = Some (JStr ''   '')
      \<and> trim ''   '' = []"
    by (simp add: trim_def is_ws_def)
  have a: "status (fst (POST owner_session (Some (JObj [(''title'', JStr ''   '')])) demo_world)) = 400"
    using conjunct1 [OF create_validation_and_stamping [OF owner_session_user init, of "JObj [(''title'', JStr ''   '')]"]]
      blank by blast
  have nn: "create_payload \<noteq> JNull" by (simp add: create_payload_def)
  have pr: "\<not> includes_priority (get_prop create_payload ''priority'')"
    by (simp add: create_payload_def includes_priority_def validPriorities_def)
  note rule = create_validation_and_stamping [OF owner_session_user init nn]
  from conjunct1 [OF conjunct2 [OF conjunct2 [OF rule]]] pr
  have med: "finalPriority (get_prop create_payload ''priority'') = ''medium''" by blast
  have t: "trim '' Walk the dog '' \<noteq> []" "length '' Walk the dog '' \<le> 500"
    by (simp_all add: trim_def is_ws_def)
  have n: "trim_or_null None = Inr None" by (simp add: trim_or_null_def)
  from POST_fields_accepts [OF demo_healthy demo_fresh t n n, of 7 "Some (JStr ''urgent'')" None]
  obtain todo w' where "POST_fields 7 (Some (JStr '' Walk the dog '')) None (Some (JStr ''urgent'')) None None demo_world
      = (Response 201 (TodoBody todo), w')" by blast
  moreover have "get_prop create_payload ''title'' = Some (JStr '' Walk the dog '')"
    "get_prop create_payload ''description'' = None"
    "get_prop create_payload ''priority'' = Some (JStr ''urgent'')"
    "get_prop create_payload ''category'' = None"
    "get_prop create_payload ''dueDate'' = None"
    by (simp_all add: create_payload_def)
  ultimately have p: "POST owner_session (Some create_payload) demo_world = (Response 201 (TodoBody todo), w')"
    by (simp add: POST_body [OF nn demo_initialized owner_session_user])
  from conjunct1 [OF conjunct2 [OF rule]] have "\<forall>todo w'. POST owner_session (Some create_payload) demo_world = (Response 201 (TodoBody todo), w')
              \<and> find (has_id (next_todo_id demo_world)) (todos demo_world) = None
          \<longrightarrow> todo ''user_id'' = Some (JNum 7)
            \<and> todo ''priority'' = Some (JStr (finalPriority (get_prop create_payload ''priority'')))
            \<and> find (has_id (next_todo_id demo_world)) (todos w') = Some todo" .
  with p demo_fresh
  have "todo ''user_id'' = Some (JNum 7)
      \<and> todo ''priority'' = Some (JStr (finalPriority (get_prop create_payload ''priority'')))
      \<and> find (has_id (next_todo_id demo_world)) (todos w') = Some todo" by blast
  with med have "todo ''user_id'' = Some (JNum 7) \<and> todo ''priority'' = Some (JStr ''medium'')
      \<and> find (has_id (next_todo_id demo_world)) (todos w') = Some todo" by simp
  moreover have "next_todo_id demo_world = 2" by (simp add: demo_world_def)
  ultimately have "todo ''user_id'' = Some (JNum 7)" "todo ''priority'' = Some (JStr ''medium'')"
    "find (has_id 2) (todos w') = Some todo" by simp_all
  with a p show ?thesis by blast
qed

text \<open>The creation handler measures the title before trimming it: a title of one letter and
  500 spaces is answered 400 as well.\<close>

lemma POST_rejects_padded_title:
  "length (trim padded_title) = 1
   \<and> POST_fields uid (Some (JStr padded_title)) d p c dd w
       = (Response 400 (ErrorBody ''Title must be less than 500 characters''), w)"
proof -
  have ws: "is_ws (CHR '' '')" "\<not> is_ws (CHR ''a'')" by (simp_all add: is_ws_def)
  have "rev padded_title = replicate 500 (CHR '' '') @ [CHR ''a'']"
    by (simp add: padded_title_def)
  moreover have "dropWhile is_ws padded_title = padded_title"
    using ws by (simp add: padded_title_def)
  moreover have "dropWhile is_ws (replicate 500 (CHR '' '') @ [CHR ''a'']) = dropWhile is_ws [CHR ''a'']"
    by (rule dropWhile_append2) (simp add: ws)
  ultimately have "dropWhile is_ws (rev (dropWhile is_ws padded_title)) = [CHR ''a'']"
    using ws by simp
  then have t: "trim padded_title = [CHR ''a'']" by (simp add: trim_def)
  have l: "length padded_title = 501" by (simp add: padded_title_def)
  have ne: "padded_title \<noteq> []" by (simp add: padded_title_def)
  from t l ne show ?thesis by (simp add: POST_fields_def)
qed

section \<open>Statistics\<close>

lemma rate_values: "rate 0 0 = 0" "rate 3 1 = 33" "rate 40 23 = 57"
  by code_simp+

lemma exact_round: "Math_round (100 * 23 / 40) = 58"
  by code_simp

lemma counted_fields:
  "counted_todo n ''user_id'' = Some (JNum 7)"
  "sql_true (counted_todo n ''completed'') = (n \<le> 23)"
  by (simp_all add: counted_todo_def sql_true_def)

lemma count_upto: "length (filter (\<lambda>n. n \<le> 23) [1..<41]) = 23"
  by code_simp

lemma stats_accepted:
  assumes "faults w = []"
  shows "fst (getCompletedTodoStats uid w) =
     Inr \<lparr>total = length (filter (\<lambda>r. r ''user_id'' = Some (JNum uid)) (todos w)),
          completed = length (filter (\<lambda>r. sql_true (r ''completed''))
                        (filter (\<lambda>r. r ''user_id'' = Some (JNum uid)) (todos w))),
          completionRate = rate (length (filter (\<lambda>r. r ''user_id'' = Some (JNum uid)) (todos w)))
            (length (filter (\<lambda>r. sql_true (r ''completed''))
                        (filter (\<lambda>r. r ''user_id'' = Some (JNum uid)) (todos w))))\<rparr>"
  using assms by (simp add: getCompletedTodoStats_def attempt_def Let_def)

text \<open>C6. \<^verbatim>\<open>getCompletedTodoStats\<close> for a user with 40 todos, 23 of them completed: the rate
  returned is 57, while \<open>100 * 23 / 40 = 57.5\<close> rounds to 58; the quotient \<open>23 / 40\<close> is not a
  binary fraction, and its rounded value times 100 rounds to the number just below 57.5. The
  two values the specification names are returned: 33 for one of three, 0 for none.\<close>

theorem stats_rate_forty:
  "fst (getCompletedTodoStats 7 forty_world) = Inr \<lparr>total = 40, completed = 23, completionRate = 57\<rparr>
   \<and> Math_round (100 * 23 / 40) = 58
   \<and> rate 3 1 = 33 \<and> rate 0 0 = 0"
proof -
  have w: "faults forty_world = []" "todos forty_world = map counted_todo [1..<41]"
    by (simp_all add: forty_world_def)
  have mine: "filter (\<lambda>r. r ''user_id'' = Some (JNum 7)) (map counted_todo [1..<41]) = map counted_todo [1..<41]"
    by (simp add: filter_map o_def counted_fields)
  have cnt: "length (filter (\<lambda>r. sql_true (r ''completed'')) (map counted_todo [1..<41])) = 23"
    using count_upto by (simp add: filter_map o_def counted_fields)
  have len: "length (map counted_todo [1..<41]) = 40" by simp
  have "fst (getCompletedTodoStats 7 forty_world)
      = Inr \<lparr>total = 40, completed = 23, completionRate = rate 40 23\<rparr>"
    unfolding stats_accepted [OF w(1)] w(2) mine cnt len by (rule refl)
  then have "fst (getCompletedTodoStats 7 forty_world)
      = Inr \<lparr>total = 40, completed = 23, completionRate = 57\<rparr>"
    by (simp only: rate_values)
  with exact_round rate_values(1,2) show ?thesis by blast
qed

section \<open>Titles stored by the update handler\<close>

lemma trim_long_title: "trim long_title = long_title"
proof -
  have a: "\<not> is_ws (CHR ''a'')" by (simp add: is_ws_def)
  have "dropWhile is_ws (replicate 501 (CHR ''a'')) = replicate 501 (CHR ''a'')"
    using a by (simp add: dropWhile_replicate)
  then show ?thesis by (simp add: trim_def long_title_def)
qed

lemma long_title_length: "length long_title = 501"
  by (simp add: long_title_def)

lemma long_title_filtered:
  "filter_updates t ts (JObj [(''title'', JStr long_title)]) allowedFields []
     = Next [(''title'', JStr long_title)]"
proof -
  have ne: "long_title \<noteq> []" using long_title_length by auto
  have "title_is_empty (JStr long_title) = Inr False"
    using ne by (simp add: title_is_empty_def trim_long_title)
  then have "patch_key t ts ''title'' (JStr long_title) [] = Next [(''title'', JStr long_title)]"
    by (simp add: patch_key_def)
  then show ?thesis by (simp add: allowedFields_def)
qed

text \<open>C5. The owner's update request with a title of 501 characters, on the embedded backend:
  the answer is 200 and the todo stored has that title. The creation handler answers the
  same title with 400.\<close>

theorem update_stores_long_title:
  "\<exists>t' w'. PATCH owner_session ''1'' (Some (JObj [(''title'', JStr long_title)])) demo_world
              = (Response 200 (TodoBody t'), w')
      \<and> find (has_id 1) (todos w') = Some t'
      \<and> t' ''title'' = Some (JStr long_title)
      \<and> length long_title = 501
      \<and> fst (POST owner_session (Some (JObj [(''title'', JStr long_title)])) demo_world)
          = Response 400 (ErrorBody ''Title must be less than 500 characters'')"
proof -
  let ?f = "[(''title'', JStr long_title)]"
  from demo_healthy obtain w1 w2 where l: "ensureDbInitialized demo_world = (Inr (), w1)"
    "getTodoById 1 w1 = (Inr (find (has_id 1) (todos demo_world)), w2)"
    "todos w2 = todos demo_world" "now w2 = now demo_world" "True \<notin> set (faults w2)"
    by (rule load_accepts)
  from l(2) demo_found have g: "getTodoById 1 w1 = (Inr (Some demo_todo), w2)" by simp
  have k: "set (map fst ?f) \<subseteq> set update_keys" by (simp add: update_keys_def)
  from updateTodo_accepts [OF l(5) _ k, of 1] obtain w3 where
    u: "updateTodo 1 ?f w2 =
          (Inr (map_option (apply_set (?f @ [(''updated_at'', JStr (now w2))]))
                 (find (has_id 1) (todos w2))), w3)"
    and tw: "todos w3 = map (\<lambda>r. if has_id 1 r then apply_set (?f @ [(''updated_at'', JStr (now w2))]) r else r) (todos w2)"
    by blast
  let ?t' = "apply_set (?f @ [(''updated_at'', JStr (now w2))]) demo_todo"
  from u l(3) demo_found have u': "updateTodo 1 ?f w2 = (Inr (Some ?t'), w3)" by simp
  have body: "PATCH_body 1 demo_todo (Some (JObj ?f)) w2 = (Response 200 (TodoBody ?t'), w3)"
    using u' by (simp add: PATCH_body_def long_title_filtered PATCH_store_def)
  from PATCH_stage(6) [OF l(1) owner_session_user parseInt_1 g, of "Some (JObj ?f)"] demo_owner body
  have p: "PATCH owner_session ''1'' (Some (JObj ?f)) demo_world = (Response 200 (TodoBody ?t'), w3)"
    by simp
  have title: "?t' ''title'' = Some (JStr long_title)"
    by (simp add: apply_set_def)
  from updateTodo_Some [OF u' k] have stored: "find (has_id 1) (todos w3) = Some ?t'" by blast
  have nn: "JObj ?f \<noteq> JNull" by simp
  have ne: "long_title \<noteq> []" using long_title_length by auto
  have "POST owner_session (Some (JObj ?f)) demo_world
      = (Response 400 (ErrorBody ''Title must be less than 500 characters''), demo_world)"
    using ne long_title_length
    by (simp add: POST_body [OF nn demo_initialized owner_session_user] POST_fields_def
        trim_long_title)
  with p stored title long_title_length show ?thesis by auto
qed

text \<open>What does hold of a stored title: the update handler stores a string that is not empty
  after trimming, as given; the creation handler stores the trimmed string, not empty and of
  at most 500 characters.\<close>

lemma patch_key_title:
  assumes "patch_key ex ts ''title'' v f = Next f'"
  shows "\<exists>t. v = JStr t \<and> trim t \<noteq> []"
proof -
  from assms have e: "title_is_empty v = Inr False"
    by (auto simp: patch_key_def split: sum.splits bool.splits)
  then show ?thesis
    by (cases v) (auto simp: title_is_empty_def split: if_splits)
qed

lemma updated_title_nonempty:
  assumes "filter_updates ex ts (JObj kvs) allowedFields [] = Next f"
    and "map_of kvs ''title'' = Some v"
  shows "map_of f ''title'' = Some v \<and> (\<exists>t. v = JStr t \<and> trim t \<noteq> [])"
proof -
  have p: "prop_in ''title'' (JObj kvs) = Inr (Some v)" using assms(2) by simp
  from filter_updates_copied [OF assms(1) allowedFields_facts(1,2,4) p]
  have c: "map_of f ''title'' = Some v" .
  from assms obtain f1 where "patch_key ex ts ''title'' v [] = Next f1"
    by (auto simp: allowedFields_def split: flow.splits)
  from patch_key_title [OF this] c show ?thesis by simp
qed

lemma created_title_valid:
  assumes "POST_fields uid title d p c dd w = (Response 201 (TodoBody todo), w')"
    and "find (has_id (next_todo_id w)) (todos w) = None"
  shows "\<exists>t. todo ''title'' = Some (JStr t) \<and> trim t \<noteq> [] \<and> length t \<le> 500"
proof -
  from POST_fields_created [OF assms(1)] obtain t d' c' where
    t: "trim t \<noteq> []" "length t \<le> 500" and
    cr: "createTodo uid (trim t) d' (finalPriority p) c' (or_null dd) w = (Inr (Some todo), w')"
    by blast
  have idem: "trim (trim t) = trim t"
  proof -
    let ?u = "dropWhile is_ws (rev (dropWhile is_ws t))"
    from t(1) have ne: "?u \<noteq> []" by (simp add: trim_def)
    then have h: "\<not> is_ws (hd ?u)" by (rule hd_dropWhile)
    have l: "\<not> is_ws (last ?u)"
    proof -
      have "dropWhile is_ws t \<noteq> []"
      proof
        assume e: "dropWhile is_ws t = []"
        have "?u = []" unfolding e by simp
        with ne show False by blast
      qed
      then have "\<not> is_ws (hd (dropWhile is_ws t))" by (rule hd_dropWhile)
      moreover have "last ?u = last (rev (dropWhile is_ws t))"
        using ne by (metis dropWhile_eq_Nil_conv last_appendR takeWhile_dropWhile_id)
      ultimately show ?thesis using \<open>dropWhile is_ws t \<noteq> []\<close> by (simp add: last_rev)
    qed
    from ne l have a: "dropWhile is_ws (rev ?u) = rev ?u"
      by (cases "rev ?u") (auto simp: hd_rev)
    from ne h have b: "dropWhile is_ws ?u = ?u" by (cases ?u) auto
    show ?thesis by (simp add: trim_def a b)
  qed
  from createTodo_Some(2) [OF cr assms(2)] have "todo ''title'' = Some (JStr (trim t))" .
  moreover have "length (trim t) \<le> 500" using length_trim_le [of t] t(2) by simp
  ultimately show ?thesis using t(1) idem by auto
qed

section \<open>Storage errors\<close>

text \<open>C2, as the claim states it, fails: \<^verbatim>\<open>getTodoById\<close> has no handler, and an error raised
  by its query leaves the operation as an exception.\<close>

theorem read_error_propagates:
  "fst (getTodoById 1 failing_world) = Inl StorageError"
  by (simp add: getTodoById_def attempt_def failing_world_def)

text \<open>C2, amended: when the engine raises on the statement an operation sends first, the four
  writing operations (\<^verbatim>\<open>updateTodo\<close> with a field set that is not empty) catch the error and
  return their sentinel, null or false, with nothing stored; the five reading operations
  let it propagate.\<close>

theorem write_errors_caught:
  assumes "faults w = True # fs"
  shows "createUser name hash w = (Inr None, w\<lparr>faults := fs\<rparr>)
       \<and> createTodo uid title d p c dd w = (Inr None, w\<lparr>faults := fs\<rparr>)
       \<and> (updates \<noteq> [] \<longrightarrow> updateTodo i updates w = (Inr None, w\<lparr>faults := fs\<rparr>))
       \<and> deleteTodo i w = (Inr False, w\<lparr>faults := fs\<rparr>)
       \<and> getUserByUsername name w = (Inl StorageError, w\<lparr>faults := fs\<rparr>)
       \<and> getUserById i w = (Inl StorageError, w\<lparr>faults := fs\<rparr>)
       \<and> getTodosByUserId uid w = (Inl StorageError, w\<lparr>faults := fs\<rparr>)
       \<and> getTodoById i w = (Inl StorageError, w\<lparr>faults := fs\<rparr>)
       \<and> getCompletedTodoStats uid w = (Inl StorageError, w\<lparr>faults := fs\<rparr>)"
proof -
  have a: "attempt w = (True, w\<lparr>faults := fs\<rparr>)" using assms by (simp add: attempt_def)
  have "createUser name hash w = (Inr None, w\<lparr>faults := fs\<rparr>)"
    using a by (simp add: createUser_def)
  moreover have "createTodo uid title d p c dd w = (Inr None, w\<lparr>faults := fs\<rparr>)"
    using a by (simp add: createTodo_def)
  moreover have "updates \<noteq> [] \<longrightarrow> updateTodo i updates w = (Inr None, w\<lparr>faults := fs\<rparr>)"
    using a by (simp add: updateTodo_def run_update_def Let_def)
  moreover have "deleteTodo i w = (Inr False, w\<lparr>faults := fs\<rparr>)"
    using a by (simp add: deleteTodo_def)
  moreover have "getUserByUsername name w = (Inl StorageError, w\<lparr>faults := fs\<rparr>)"
    using a by (simp add: getUserByUsername_def)
  moreover have "getUserById i w = (Inl StorageError, w\<lparr>faults := fs\<rparr>)"
    using a by (simp add: getUserById_def)
  moreover have "getTodosByUserId uid w = (Inl StorageError, w\<lparr>faults := fs\<rparr>)"
    using a by (simp add: getTodosByUserId_def)
  moreover have "getTodoById i w = (Inl StorageError, w\<lparr>faults := fs\<rparr>)"
    using a by (simp add: getTodoById_def)
  moreover have "getCompletedTodoStats uid w = (Inl StorageError, w\<lparr>faults := fs\<rparr>)"
    using a by (simp add: getCompletedTodoStats_def)
  ultimately show ?thesis by blast
qed

theorem write_errors_caught_witness:
  "createTodo 7 ''Buy milk'' None ''medium'' None JNull failing_world = (Inr None, demo_world)
   \<and> updateTodo 1 [(''title'', JStr ''x'')] failing_world = (Inr None, demo_world)
   \<and> deleteTodo 1 failing_world = (Inr False, demo_world)
   \<and> createUser ''alice'' ''hash'' failing_world = (Inr None, demo_world)
   \<and> getTodoById 1 failing_world = (Inl StorageError, demo_world)"
proof -
  have f: "faults failing_world = True # []" by (simp add: failing_world_def)
  have w: "failing_world\<lparr>faults := []\<rparr> = demo_world"
    by (simp add: failing_world_def demo_world_def)
  from write_errors_caught [OF f, of "''alice''" "''hash''" 7 "''Buy milk''" None "''medium''" None JNull
      "[(''title'', JStr ''x'')]" 1]
  show ?thesis unfolding w by simp
qed

text \<open>On the embedded backend the row is read back after the INSERT by a call whose promise
  is returned, not awaited: an error of that read is not caught either.\<close>

lemma createTodo_read_back_propagates:
  "fst (createTodo 7 ''Buy milk'' None ''medium'' None JNull (demo_world\<lparr>faults := [False, True]\<rparr>))
     = Inl StorageError"
  by (simp add: createTodo_def attempt_def getTodoById_def demo_world_def Let_def)

text \<open>The handlers are where an error of a reading operation ends: each answers 500.\<close>

lemma read_errors_answered_500:
  assumes "initialized w" and "faults w = True # fs" and "session_user s = Some uid"
    and "parseInt ident = Some tid"
  shows "status (fst (GET_todos s w)) = 500" "status (fst (GET_stats s w)) = 500"
    "status (fst (PATCH s ident body w)) = 500" "status (fst (DELETE s ident w)) = 500"
proof -
  have e: "ensureDbInitialized w = (Inr (), w)"
    using assms(1) by (simp add: ensureDbInitialized_def)
  have a: "attempt w = (True, w\<lparr>faults := fs\<rparr>)"
    using assms(2) by (simp add: attempt_def)
  show "status (fst (GET_todos s w)) = 500"
    using e a assms(3) by (simp add: GET_todos_def getTodosByUserId_def)
  show "status (fst (GET_stats s w)) = 500"
    using e a assms(3) by (simp add: GET_stats_def getCompletedTodoStats_def)
  have g: "getTodoById tid w = (Inl StorageError, w\<lparr>faults := fs\<rparr>)"
    using a by (simp add: getTodoById_def)
  from PATCH_stage(4) [OF e assms(3,4) g]
  show "status (fst (PATCH s ident body w)) = 500" by (simp add: patch_failed_def)
  from DELETE_stage(4) [OF e assms(3,4) g]
  show "status (fst (DELETE s ident w)) = 500" by (simp add: delete_failed_def)
qed

end
